theory Spec2Isabelle
  imports Complex_Main
begin

section \<open>Anomaly detection ensemble: a shallow embedding\<close>

text \<open>
  The theory embeds \<^verbatim>\<open>src/anomaly_detection.py\<close>; the copy in
  \<^verbatim>\<open>src/uidai_analytics/analytics/services/anomaly.py\<close> has the same detector and
  aggregation code, line for line.

  Numbers. The program computes on IEEE doubles through numpy, scipy and pandas. The value
  of a double is a real number, an infinity or not-a-number (type \<open>fl\<close>); comparisons,
  \<^verbatim>\<open>abs\<close> and \<^verbatim>\<open>min\<close> of doubles are exact and are defined here. What the libraries
  compute with rounding (the z-scores, the quantiles, the rolling mean, the mean of a
  series, and every sum, difference, product and quotient of two doubles) is not fixed by
  the program text: it is a parameter of the embedding, a record \<open>numerics\<close>, and the
  properties below hold for every such record unless they say otherwise. The record
  \<open>exact\<close> computes without rounding error; it is what the libraries return whenever every
  intermediate value is a double. The values of an input series are finite.
\<close>

subsection \<open>Floating-point values with infinities and NaN\<close>

datatype fl = Fin real | PInf | NInf | NaN

text \<open>Subtraction of two doubles (\<^verbatim>\<open>data_series - rolling_mean\<close>).\<close>

fun fsub :: "fl \<Rightarrow> fl \<Rightarrow> fl" where
  "fsub (Fin a) (Fin b) = Fin (a - b)"
| "fsub NaN y = NaN"
| "fsub x NaN = NaN"
| "fsub PInf PInf = NaN"
| "fsub NInf NInf = NaN"
| "fsub PInf y = PInf"
| "fsub NInf y = NInf"
| "fsub x PInf = NInf"
| "fsub x NInf = PInf"

text \<open>
  Division of two doubles under numpy: nothing is raised, a non-zero value over zero is an
  infinity and zero over zero is NaN. Signed zeros are not distinguished; every quotient of
  this program goes through \<^verbatim>\<open>np.abs\<close> before it is used, so the sign of an infinite
  quotient is not observable.
\<close>

fun fdiv :: "fl \<Rightarrow> fl \<Rightarrow> fl" where
  "fdiv (Fin a) (Fin b) =
     (if b = 0 then (if a = 0 then NaN else if 0 < a then PInf else NInf)
      else Fin (a / b))"
| "fdiv NaN y = NaN"
| "fdiv x NaN = NaN"
| "fdiv (Fin a) y = Fin 0"
| "fdiv PInf (Fin b) = (if b < 0 then NInf else PInf)"
| "fdiv NInf (Fin b) = (if b < 0 then PInf else NInf)"
| "fdiv x y = NaN"

fun fabs :: "fl \<Rightarrow> fl" where
  "fabs (Fin a) = Fin \<bar>a\<bar>"
| "fabs PInf = PInf"
| "fabs NInf = PInf"
| "fabs NaN = NaN"

text \<open>\<^verbatim>\<open>x > c\<close> for a double \<open>x\<close> and a finite constant: false on NaN.\<close>

fun fgt :: "fl \<Rightarrow> real \<Rightarrow> bool" where
  "fgt (Fin a) c = (c < a)"
| "fgt PInf c = True"
| "fgt NInf c = False"
| "fgt NaN c = False"

text \<open>\<^verbatim>\<open>x < c\<close> for a double \<open>x\<close> and a finite constant: false on NaN.\<close>

fun flt :: "fl \<Rightarrow> real \<Rightarrow> bool" where
  "flt (Fin a) c = (a < c)"
| "flt PInf c = False"
| "flt NInf c = True"
| "flt NaN c = False"

text \<open>\<^verbatim>\<open>c < x\<close> with the finite value on the left is \<^const>\<open>fgt\<close>.\<close>

text \<open>
  Python's \<^verbatim>\<open>min(10.0, z)\<close>: the first argument is kept unless the second is strictly
  smaller.
\<close>

definition py_min :: "real \<Rightarrow> fl \<Rightarrow> fl" where
  "py_min a z = (if flt z a then z else Fin a)"

text \<open>
  Python's \<^verbatim>\<open>round(x, 2)\<close> on a float: the nearest multiple of 1/100, a tie going to the
  even neighbour; infinities and NaN are returned unchanged.
\<close>

definition round_half_even :: "real \<Rightarrow> int" where
  "round_half_even y =
     (let f = \<lfloor>y\<rfloor>; d = y - of_int f
      in if d < 1 / 2 then f else if 1 / 2 < d then f + 1
         else if even f then f else f + 1)"

fun py_round2 :: "fl \<Rightarrow> fl" where
  "py_round2 (Fin a) = Fin (of_int (round_half_even (a * 100)) / 100)"
| "py_round2 x = x"

text \<open>Sum and product of two doubles, before rounding.\<close>

fun fadd :: "fl \<Rightarrow> fl \<Rightarrow> fl" where
  "fadd (Fin a) (Fin b) = Fin (a + b)"
| "fadd NaN y = NaN"
| "fadd x NaN = NaN"
| "fadd PInf NInf = NaN"
| "fadd NInf PInf = NaN"
| "fadd PInf y = PInf"
| "fadd NInf y = NInf"
| "fadd x PInf = PInf"
| "fadd x NInf = NInf"

fun fmul :: "fl \<Rightarrow> fl \<Rightarrow> fl" where
  "fmul (Fin a) (Fin b) = Fin (a * b)"
| "fmul NaN y = NaN"
| "fmul x NaN = NaN"
| "fmul (Fin a) y = (if a = 0 then NaN else if (0 < a) = (y = PInf) then PInf else NInf)"
| "fmul x (Fin b) = (if b = 0 then NaN else if (0 < b) = (x = PInf) then PInf else NInf)"
| "fmul x y = (if x = y then PInf else NInf)"

subsection \<open>The numerical library\<close>

text \<open>
  The results of the library calls of the program, in double precision:
  \<^item> \<open>np_round\<close>: the double an arithmetic operation returns for a non-zero exact result
    (its rounding; an infinity on overflow);
  \<^item> \<open>np_zscore xs i\<close>: entry \<open>i\<close> of \<^verbatim>\<open>scipy.stats.zscore\<close> on the values \<open>xs\<close>;
  \<^item> \<open>np_quantile xs q\<close>: \<^verbatim>\<open>Series.quantile(q)\<close>;
  \<^item> \<open>np_rolling_mean xs window i\<close>: entry \<open>i\<close> of \<^verbatim>\<open>Series.rolling(window).mean()\<close>;
  \<^item> \<open>np_mean xs\<close>: \<^verbatim>\<open>Series.mean()\<close>.
\<close>

record numerics =
  np_round :: "real \<Rightarrow> fl"
  np_zscore :: "real list \<Rightarrow> nat \<Rightarrow> fl"
  np_quantile :: "real list \<Rightarrow> real \<Rightarrow> fl"
  np_rolling_mean :: "real list \<Rightarrow> nat \<Rightarrow> nat \<Rightarrow> fl"
  np_mean :: "real list \<Rightarrow> fl"

text \<open>
  An arithmetic operation on two doubles: the exact result with the IEEE rules for the
  special values, then rounded. An exact result of zero is returned as zero, and an
  infinity or NaN as it is.
\<close>

fun round_result :: "numerics \<Rightarrow> fl \<Rightarrow> fl" where
  "round_result A (Fin a) = (if a = 0 then Fin 0 else np_round A a)"
| "round_result A x = x"

definition d_add :: "numerics \<Rightarrow> fl \<Rightarrow> fl \<Rightarrow> fl" where
  "d_add A x y = round_result A (fadd x y)"

definition d_sub :: "numerics \<Rightarrow> fl \<Rightarrow> fl \<Rightarrow> fl" where
  "d_sub A x y = round_result A (fsub x y)"

definition d_mul :: "numerics \<Rightarrow> fl \<Rightarrow> fl \<Rightarrow> fl" where
  "d_mul A x y = round_result A (fmul x y)"

definition d_div :: "numerics \<Rightarrow> fl \<Rightarrow> fl \<Rightarrow> fl" where
  "d_div A x y = round_result A (fdiv x y)"

subsection \<open>The library without rounding error\<close>

text \<open>The mean of a non-empty list of values.\<close>

definition mean :: "real list \<Rightarrow> real" where
  "mean xs = sum_list xs / real (length xs)"

text \<open>Population standard deviation (\<^verbatim>\<open>ddof=0\<close>), as \<^verbatim>\<open>scipy.stats.zscore\<close> uses it.\<close>

definition pstd :: "real list \<Rightarrow> real" where
  "pstd xs = sqrt (sum_list (map (\<lambda>x. (x - mean xs)\<^sup>2) xs) / real (length xs))"

text \<open>\<^verbatim>\<open>scipy.stats.zscore\<close>: each value minus the mean, over the standard deviation.\<close>

definition exact_zscore :: "real list \<Rightarrow> nat \<Rightarrow> fl" where
  "exact_zscore xs i = fdiv (Fin (xs ! i - mean xs)) (Fin (pstd xs))"

text \<open>
  \<^verbatim>\<open>Series.quantile(q)\<close> with pandas' default linear interpolation, for \<open>0 \<le> q < 1\<close> on a
  list of at least two values: position \<open>h = (n - 1) q\<close> in the sorted values,
  interpolated between its two neighbours.
\<close>

definition quantile :: "real list \<Rightarrow> real \<Rightarrow> real" where
  "quantile xs q =
     (let s = sort xs; h = real (length xs - 1) * q; lo = nat \<lfloor>h\<rfloor>
      in s ! lo + (h - real lo) * (s ! (lo + 1) - s ! lo))"

text \<open>
  \<^verbatim>\<open>Series.rolling(window).mean()\<close> at position \<open>i\<close>: NaN until \<open>window\<close> observations are
  available, then the mean of the \<open>window\<close> values ending at \<open>i\<close>, the value at \<open>i\<close>
  included. A window of size zero averages nothing, which is NaN.
\<close>

definition exact_rolling_mean :: "real list \<Rightarrow> nat \<Rightarrow> nat \<Rightarrow> fl" where
  "exact_rolling_mean xs window i =
     (if i + 1 < window then NaN
      else fdiv (Fin (sum_list (take window (drop (i + 1 - window) xs)))) (Fin (real window)))"

definition exact :: numerics where
  "exact =
     \<lparr>np_round = Fin, np_zscore = exact_zscore, np_quantile = (\<lambda>xs q. Fin (quantile xs q)),
      np_rolling_mean = exact_rolling_mean, np_mean = (\<lambda>xs. Fin (mean xs))\<rparr>"

subsection \<open>Series and findings\<close>

text \<open>
  A pandas Series: its index (the dates, of any type \<open>'t\<close>) paired with its values, in
  row order.
\<close>

type_synonym 't series = "('t \<times> real) list"

datatype py_error = ValueError | Other_exception string

text \<open>
  The dictionaries the three detectors append, one constructor per shape; the key
  \<^verbatim>\<open>"method"\<close> is the function \<open>method_name\<close>.
\<close>

datatype 't finding =
    Z_score (f_date: 't) (f_value: real) (z_score: fl)
  | Iqr (f_date: 't) (f_value: real) (lower_bound: fl) (upper_bound: fl)
  | Rolling_deviation (f_date: 't) (f_value: real) (roll_mean: fl) (deviation_pct: fl)

fun method_name :: "'t finding \<Rightarrow> string" where
  "method_name (Z_score d v z) = ''z_score''"
| "method_name (Iqr d v l u) = ''iqr''"
| "method_name (Rolling_deviation d v m p) = ''rolling_deviation''"

subsection \<open>The three detectors\<close>

text \<open>
  \<^verbatim>\<open>z > threshold\<close> compares the double \<open>z\<close> that the library returned; \<^verbatim>\<open>zip\<close> pairs row
  \<open>i\<close> with entry \<open>i\<close> of the z-scores.
\<close>

definition z_scores_of :: "numerics \<Rightarrow> real list \<Rightarrow> fl list" where
  "z_scores_of A xs = map (\<lambda>i. fabs (np_zscore A xs i)) [0..<length xs]"

definition z_score_anomalies :: "numerics \<Rightarrow> 't series \<Rightarrow> real \<Rightarrow> 't finding list" where
  "z_score_anomalies A data_series threshold =
     (if length data_series < 3 then []
      else
        let z_scores = z_scores_of A (map snd data_series)
        in map (\<lambda>((date, value), z). Z_score date value z)
             (filter (\<lambda>((date, value), z). fgt z threshold) (zip data_series z_scores)))"

text \<open>\<^verbatim>\<open>value < lower_bound\<close> is \<open>fgt lower_bound value\<close>.\<close>

definition iqr_outliers :: "numerics \<Rightarrow> 't series \<Rightarrow> 't finding list" where
  "iqr_outliers A data_series =
     (if length data_series < 5 then []
      else
        let Q1 = np_quantile A (map snd data_series) (1 / 4);
            Q3 = np_quantile A (map snd data_series) (3 / 4);
            IQR = d_sub A Q3 Q1;
            lower_bound = d_sub A Q1 (d_mul A (Fin (3 / 2)) IQR);
            upper_bound = d_add A Q3 (d_mul A (Fin (3 / 2)) IQR)
        in map (\<lambda>(date, value). Iqr date value lower_bound upper_bound)
             (filter (\<lambda>(date, value). fgt lower_bound value \<or> flt upper_bound value)
                data_series))"

text \<open>
  The loop of \<^verbatim>\<open>rolling_average_deviation\<close> over the positions \<open>window, window + 1, ...\<close>.
  \<^verbatim>\<open>deviation_pct.loc[date]\<close> is a scalar when the label \<open>date\<close> occurs once in the index,
  and then it is the entry of this position; when the label occurs more than once it is a
  Series, and \<^verbatim>\<open>if dev > 0.5\<close> raises ValueError. The findings are returned in position
  order; an error at a later position discards the findings collected before it, as the
  exception does.
\<close>

definition label_count :: "'t series \<Rightarrow> 't \<Rightarrow> nat" where
  "label_count data_series date = length (filter (\<lambda>p. fst p = date) data_series)"

fun rolling_loop ::
  "'t series \<Rightarrow> fl list \<Rightarrow> fl list \<Rightarrow> nat list \<Rightarrow> py_error + 't finding list" where
  "rolling_loop data_series rm dev [] = Inr []"
| "rolling_loop data_series rm dev (i # is) =
     (let date = fst (data_series ! i)
      in if 1 < label_count data_series date then Inl ValueError
         else
           case rolling_loop data_series rm dev is of
             Inl e \<Rightarrow> Inl e
           | Inr anomalies \<Rightarrow>
               Inr (if fgt (dev ! i) (1 / 2)
                    then Rolling_deviation date (snd (data_series ! i)) (rm ! i) (dev ! i)
                           # anomalies
                    else anomalies))"

text \<open>
  \<^verbatim>\<open>rolling_mean\<close> and \<^verbatim>\<open>deviation_pct = np.abs((data_series - rolling_mean) / rolling_mean)\<close>,
  entry by entry: a subtraction and a division of doubles, then the absolute value.
\<close>

definition rolling_mean :: "numerics \<Rightarrow> real list \<Rightarrow> nat \<Rightarrow> fl list" where
  "rolling_mean A xs window = map (np_rolling_mean A xs window) [0..<length xs]"

definition deviation_pct_of :: "numerics \<Rightarrow> real list \<Rightarrow> fl list \<Rightarrow> fl list" where
  "deviation_pct_of A xs rm =
     map (\<lambda>(x, m). fabs (d_div A (d_sub A (Fin x) m) m)) (zip xs rm)"

definition rolling_average_deviation ::
  "numerics \<Rightarrow> 't series \<Rightarrow> nat \<Rightarrow> py_error + 't finding list" where
  "rolling_average_deviation A data_series window =
     (if length data_series < window then Inr []
      else
        let rm = rolling_mean A (map snd data_series) window;
            dev = deviation_pct_of A (map snd data_series) rm;
            valid_indices = [window..<length data_series]
        in rolling_loop data_series rm dev valid_indices)"

subsection \<open>Aggregation by date\<close>

text \<open>
  The value of one key of the dictionary \<^verbatim>\<open>findings\<close>: the keys \<^verbatim>\<open>date\<close>, \<^verbatim>\<open>value\<close>,
  \<^verbatim>\<open>methods\<close> (a list, appended to) and \<^verbatim>\<open>details\<close> (a dictionary from the name of a method to
  the finding of that method).
\<close>

record 't candidate =
  c_date :: 't
  c_value :: real
  methods :: "string list"
  details :: "string \<rightharpoonup> 't finding"

definition new_candidate :: "'t finding \<Rightarrow> 't candidate" where
  "new_candidate entry =
     \<lparr>c_date = f_date entry, c_value = f_value entry, methods = [], details = Map.empty\<rparr>"

definition record_method :: "'t finding \<Rightarrow> 't candidate \<Rightarrow> 't candidate" where
  "record_method entry c =
     c\<lparr>methods := methods c @ [method_name entry],
       details := (details c)(method_name entry \<mapsto> entry)\<rparr>"

text \<open>
  \<^verbatim>\<open>add_finding\<close> on the dictionary \<^verbatim>\<open>findings\<close>, an association list in insertion order
  (the order in which Python iterates it): a new key goes to the end, an existing key is
  updated in place.
\<close>

fun add_finding ::
  "('t \<times> 't candidate) list \<Rightarrow> 't \<Rightarrow> 't finding \<Rightarrow> ('t \<times> 't candidate) list" where
  "add_finding [] date_key entry = [(date_key, record_method entry (new_candidate entry))]"
| "add_finding ((k, c) # findings) date_key entry =
     (if k = date_key then (k, record_method entry c) # findings
      else (k, c) # add_finding findings date_key entry)"

definition add_all ::
  "('t \<times> 't candidate) list \<Rightarrow> 't finding list \<Rightarrow> ('t \<times> 't candidate) list" where
  "add_all findings anoms = foldl (\<lambda>fs a. add_finding fs (f_date a) a) findings anoms"

text \<open>
  One row of the report. The field \<open>date\<close> holds the timestamp itself; its rendering by
  \<^verbatim>\<open>strftime('%Y-%m-%d')\<close> is not modelled.
\<close>

record 't alert =
  date :: 't
  metric_name :: string
  anomaly_value :: real
  severity_score :: fl
  anomaly_type :: string
  detection_methods :: "string list"
  district :: "string option"
  state :: "string option"

text \<open>
  The body of the cross-validation loop for one candidate that passed the test.
  \<^verbatim>\<open>val < roll_mean\<close> and \<^verbatim>\<open>val < series.mean()\<close> compare \<open>val\<close> with a double.
\<close>

definition validated_anomaly ::
  "numerics \<Rightarrow> 't series \<Rightarrow> string option \<Rightarrow> string option \<Rightarrow> 't candidate \<Rightarrow> 't alert" where
  "validated_anomaly A series st di f =
     (let val = c_value f;
          is_spike =
            (case details f ''rolling_deviation'' of
               Some r \<Rightarrow> \<not> fgt (roll_mean r) val
             | None \<Rightarrow> \<not> fgt (np_mean A (map snd series)) val);
          anom_type = (if is_spike then ''spike'' else ''drop'');
          severity =
            (case details f ''z_score'' of
               Some z \<Rightarrow> py_min 10 (z_score z)
             | None \<Rightarrow> Fin 5)
      in \<lparr>date = c_date f, metric_name = ''daily_enrollments'', anomaly_value = val,
          severity_score = py_round2 severity, anomaly_type = anom_type,
          detection_methods = methods f, district = di, state = st\<rparr>)"

text \<open>
  \<^verbatim>\<open>comprehensive_anomaly_report\<close> from the line \<^verbatim>\<open>series = df['daily_enrollments']\<close> on,
  for a non-empty frame. The rolling detector is the only call that can raise.
\<close>

definition findings_of ::
  "'t finding list \<Rightarrow> 't finding list \<Rightarrow> 't finding list \<Rightarrow> ('t \<times> 't candidate) list" where
  "findings_of z_anomalies iqr_anoms roll_anoms =
     add_all (add_all (add_all [] z_anomalies) iqr_anoms) roll_anoms"

definition cross_validate ::
  "numerics \<Rightarrow> 't series \<Rightarrow> string option \<Rightarrow> string option \<Rightarrow> ('t \<times> 't candidate) list
     \<Rightarrow> 't alert list" where
  "cross_validate A series st di findings =
     map (\<lambda>(date_key, f). validated_anomaly A series st di f)
       (filter (\<lambda>(date_key, f). 2 \<le> length (methods f)) findings)"

definition anomaly_report ::
  "numerics \<Rightarrow> 't series \<Rightarrow> string option \<Rightarrow> string option \<Rightarrow> py_error + 't alert list" where
  "anomaly_report A series st di =
     (let z_anomalies = z_score_anomalies A series 3;
          iqr_anoms = iqr_outliers A series
      in case rolling_average_deviation A series 30 of
           Inl e \<Rightarrow> Inl e
         | Inr roll_anoms \<Rightarrow>
             Inr (cross_validate A series st di
                    (findings_of z_anomalies iqr_anoms roll_anoms)))"


subsection \<open>Fetching and the daily scan\<close>

text \<open>
  The database is outside the program. \<open>read_series\<close> is the outcome of the \<^verbatim>\<open>try\<close> body
  of \<^verbatim>\<open>get_time_series_data\<close> (query, date conversion, ascending sort, index); \<open>read_districts\<close>
  is the outcome of the query for the partitions; \<open>to_sql\<close> is the bulk insert. Each either
  raises or returns. What the program prints is a list of lines.
\<close>

record 't env =
  read_series :: "string option \<Rightarrow> string option \<Rightarrow> nat \<Rightarrow> py_error + 't series"
  read_districts :: "py_error + (string option \<times> string option) list"
  to_sql :: "'t alert list \<Rightarrow> py_error + unit"

datatype log_line =
    Starting
  | Data_fetch_error py_error
  | Inserted nat
  | Error_in_daily_detection py_error

text \<open>
  An empty frame is the empty list. A frame that the query returns always has the column
  \<^verbatim>\<open>daily_enrollments\<close>, so the test for the column is not a branch of the model.
\<close>

definition get_time_series_data ::
  "'t env \<Rightarrow> string option \<Rightarrow> string option \<Rightarrow> nat \<Rightarrow> log_line list \<times> 't series" where
  "get_time_series_data env st di days =
     (case read_series env st di days of
        Inl e \<Rightarrow> ([Data_fetch_error e], [])
      | Inr df \<Rightarrow> ([], df))"

definition comprehensive_anomaly_report ::
  "numerics \<Rightarrow> 't env \<Rightarrow> string option \<Rightarrow> string option \<Rightarrow> nat
     \<Rightarrow> log_line list \<times> (py_error + 't alert list)" where
  "comprehensive_anomaly_report A env st di days =
     (let (out, df) = get_time_series_data env st di days
      in if df = [] then (out, Inr []) else (out, anomaly_report A df st di))"

text \<open>
  The loop of \<^verbatim>\<open>detect_anomalies_daily\<close> over the rows of the partition query: the printed
  lines so far, and either the exception that left the loop or \<^verbatim>\<open>all_alerts\<close>.
\<close>

fun scan_districts ::
  "numerics \<Rightarrow> 't env \<Rightarrow> (string option \<times> string option) list
     \<Rightarrow> log_line list \<times> (py_error + 't alert list)" where
  "scan_districts A env [] = ([], Inr [])"
| "scan_districts A env ((st, di) # rows) =
     (case comprehensive_anomaly_report A env st di 90 of
        (out, Inl e) \<Rightarrow> (out, Inl e)
      | (out, Inr alerts) \<Rightarrow>
          (case scan_districts A env rows of
             (out', Inl e) \<Rightarrow> (out @ out', Inl e)
           | (out', Inr all_alerts) \<Rightarrow> (out @ out', Inr (alerts @ all_alerts))))"

text \<open>
  The task: what it printed and the rows it appended to the alert table. The
  \<^verbatim>\<open>except Exception\<close> around the whole body turns every exception into a printed line.
\<close>

definition detect_anomalies_daily :: "numerics \<Rightarrow> 't env \<Rightarrow> log_line list \<times> 't alert list" where
  "detect_anomalies_daily A env =
     (case read_districts env of
        Inl e \<Rightarrow> ([Starting, Error_in_daily_detection e], [])
      | Inr rows \<Rightarrow>
          (case scan_districts A env rows of
             (out, Inl e) \<Rightarrow> (Starting # out @ [Error_in_daily_detection e], [])
           | (out, Inr all_alerts) \<Rightarrow>
               if all_alerts = [] then (Starting # out, [])
               else
                 (case to_sql env all_alerts of
                    Inl e \<Rightarrow> (Starting # out @ [Error_in_daily_detection e], [])
                  | Inr u \<Rightarrow> (Starting # out @ [Inserted (length all_alerts)], all_alerts))))"

subsection \<open>Notions used to state the properties\<close>

text \<open>The finding appended by the rolling detector at position \<open>i\<close>.\<close>

definition rolling_finding :: "'t series \<Rightarrow> fl list \<Rightarrow> fl list \<Rightarrow> nat \<Rightarrow> 't finding" where
  "rolling_finding s rm dev i =
     Rolling_deviation (fst (s ! i)) (snd (s ! i)) (rm ! i) (dev ! i)"

text \<open>The entry of \<^verbatim>\<open>deviation_pct\<close> at position \<open>i\<close>.\<close>

definition deviation_at :: "numerics \<Rightarrow> real list \<Rightarrow> nat \<Rightarrow> nat \<Rightarrow> fl" where
  "deviation_at A xs window i =
     fabs (d_div A (d_sub A (Fin (xs ! i)) (np_rolling_mean A xs window i))
             (np_rolling_mean A xs window i))"

text \<open>
  The positions that the rolling detector flags, and the finding it appends at a position,
  written with the entries of \<^verbatim>\<open>rolling_mean\<close> and \<^verbatim>\<open>deviation_pct\<close>.
\<close>

definition flagged_positions :: "numerics \<Rightarrow> 't series \<Rightarrow> nat \<Rightarrow> nat list" where
  "flagged_positions A s window =
     filter (\<lambda>i. fgt (deviation_at A (map snd s) window i) (1 / 2)) [window..<length s]"

definition finding_at_position :: "numerics \<Rightarrow> 't series \<Rightarrow> nat \<Rightarrow> nat \<Rightarrow> 't finding" where
  "finding_at_position A s window i =
     Rolling_deviation (fst (s ! i)) (snd (s ! i)) (np_rolling_mean A (map snd s) window i)
       (deviation_at A (map snd s) window i)"

text \<open>
  The specification's reading of the rolling average, for comparison with
  \<^const>\<open>exact_rolling_mean\<close>: the mean of the \<open>window\<close> points before position \<open>i\<close>,
  undefined at the first \<open>window\<close> positions.
\<close>

definition spec_preceding_mean :: "real list \<Rightarrow> nat \<Rightarrow> nat \<Rightarrow> real option" where
  "spec_preceding_mean xs window i =
     (if i < window \<or> window = 0 then None
      else Some (sum_list (take window (drop (i - window) xs)) / real window))"



text \<open>The findings of a list that carry the date \<open>d\<close>, in order.\<close>

definition entries_at :: "'t \<Rightarrow> 't finding list \<Rightarrow> 't finding list" where
  "entries_at d anoms = filter (\<lambda>e. f_date e = d) anoms"

text \<open>A candidate after a list of findings has been recorded in it, one after the other.\<close>

definition record_all :: "'t candidate \<Rightarrow> 't finding list \<Rightarrow> 't candidate" where
  "record_all c anoms = foldl (\<lambda>c e. record_method e c) c anoms"

text \<open>
  What the three detectors report on a series, with the arguments the report passes them
  (threshold 3, window 30), and the set of the methods that flagged a date.
\<close>

definition detector_findings :: "numerics \<Rightarrow> 't series \<Rightarrow> 't finding list" where
  "detector_findings A series =
     z_score_anomalies A series 3 @ iqr_outliers A series
       @ (case rolling_average_deviation A series 30 of
            Inl e \<Rightarrow> [] | Inr roll_anoms \<Rightarrow> roll_anoms)"


text \<open>
  The findings that the candidate of a date keeps under the keys \<^verbatim>\<open>z_score\<close> and
  \<^verbatim>\<open>rolling_deviation\<close> of its \<^verbatim>\<open>details\<close>: the last one that the detector reported for
  the date, if any. Where the date occurs once in the series there is at most one.
\<close>

definition kept_finding :: "'t \<Rightarrow> 't finding list \<Rightarrow> 't finding option" where
  "kept_finding d anoms = (if entries_at d anoms = [] then None else Some (last (entries_at d anoms)))"

text \<open>
  Rounding to two decimals, stated without \<^const>\<open>py_round2\<close>: \<open>r\<close> is a whole number of
  hundredths nearest to \<open>y\<close>, and the even one of the two when \<open>y\<close> lies half-way.
\<close>

definition rounds_to_2dp :: "real \<Rightarrow> real \<Rightarrow> bool" where
  "rounds_to_2dp y r \<longleftrightarrow>
     (\<exists>k::int. r = of_int k / 100 \<and> \<bar>of_int k - y * 100\<bar> \<le> 1 / 2
        \<and> (\<bar>of_int k - y * 100\<bar> = 1 / 2 \<longrightarrow> even k))"

subsection \<open>Example series\<close>

text \<open>
  Series of counts for the concrete instances below, dates numbered from 0: 36 days at 38
  and a last day at 1; three early outliers, 32 days at 10 and a last day at 19; 16 days at
  1 and a last day at 18; 15 days around 40 and a last day at 91.
\<close>

definition example_drop :: "nat series" where
  "example_drop =
     [(0, 38), (1, 38), (2, 38), (3, 38), (4, 38), (5, 38), (6, 38), (7, 38), (8, 38),
      (9, 38), (10, 38), (11, 38), (12, 38), (13, 38), (14, 38), (15, 38), (16, 38),
      (17, 38), (18, 38), (19, 38), (20, 38), (21, 38), (22, 38), (23, 38), (24, 38),
      (25, 38), (26, 38), (27, 38), (28, 38), (29, 38), (30, 38), (31, 38), (32, 38),
      (33, 38), (34, 38), (35, 38), (36, 1)]"

definition example_late_spike :: "nat series" where
  "example_late_spike =
     [(0, 1), (1, 1), (2, 19), (3, 10), (4, 10), (5, 10), (6, 10), (7, 10), (8, 10),
      (9, 10), (10, 10), (11, 10), (12, 10), (13, 10), (14, 10), (15, 10), (16, 10),
      (17, 10), (18, 10), (19, 10), (20, 10), (21, 10), (22, 10), (23, 10), (24, 10),
      (25, 10), (26, 10), (27, 10), (28, 10), (29, 10), (30, 10), (31, 10), (32, 10),
      (33, 10), (34, 10), (35, 19)]"

definition example_short_spike :: "nat series" where
  "example_short_spike =
     [(0, 1), (1, 1), (2, 1), (3, 1), (4, 1), (5, 1), (6, 1), (7, 1), (8, 1), (9, 1),
      (10, 1), (11, 1), (12, 1), (13, 1), (14, 1), (15, 1), (16, 18)]"

definition example_rounding :: "nat series" where
  "example_rounding =
     [(0, 10), (1, 19), (2, 48), (3, 32), (4, 43), (5, 37), (6, 42), (7, 38), (8, 40),
      (9, 40), (10, 40), (11, 40), (12, 40), (13, 40), (14, 40), (15, 91)]"


text \<open>
  A database with three partitions for the examples: the query for the second one raises,
  the other two return the series above; the insert succeeds.
\<close>

definition example_env :: "nat env" where
  "example_env =
     \<lparr>read_series =
        (\<lambda>st di days.
           if st = Some ''S2'' then Inl (Other_exception ''connection lost'')
           else if st = Some ''S1'' then Inr example_drop
           else Inr example_short_spike),
      read_districts =
        Inr [(Some ''S1'', Some ''D1''), (Some ''S2'', Some ''D2''), (Some ''S3'', Some ''D3'')],
      to_sql = (\<lambda>alerts. Inr ())\<rparr>"

section \<open>Properties of the detectors\<close>

lemma exact_simps:
  "np_round exact = Fin" "np_zscore exact = exact_zscore"
  "np_quantile exact = (\<lambda>xs q. Fin (quantile xs q))"
  "np_rolling_mean exact = exact_rolling_mean" "np_mean exact = (\<lambda>xs. Fin (mean xs))"
  by (simp_all add: exact_def)

subsection \<open>Z-score on a degenerate series\<close>

lemma pstd_zero_all_mean:
  assumes "xs \<noteq> []" "pstd xs = 0" "x \<in> set xs"
  shows "x = mean xs"
proof -
  have "sum_list (map (\<lambda>x. (x - mean xs)\<^sup>2) xs) / real (length xs) = 0"
    using assms(2) by (simp add: pstd_def)
  with assms(1) have "sum_list (map (\<lambda>x. (x - mean xs)\<^sup>2) xs) = 0"
    by simp
  moreover have "\<And>y. y \<in> set (map (\<lambda>x. (x - mean xs)\<^sup>2) xs) \<Longrightarrow> 0 \<le> y"
    by auto
  ultimately have "\<forall>y \<in> set (map (\<lambda>x. (x - mean xs)\<^sup>2) xs). y = 0"
    using sum_list_nonneg_eq_0_iff [of "map (\<lambda>x. (x - mean xs)\<^sup>2) xs"] by blast
  with assms(3) have "(x - mean xs)\<^sup>2 = 0" by auto
  then show ?thesis by simp
qed

text \<open>
  Claim C7. On a series of at least three points whose standard deviation is zero, every
  z-score is zero over zero, which is NaN and not an exception; NaN exceeds no threshold,
  so the Z-score detector returns the empty list, whatever the threshold. The same holds
  for any library that returns NaN at every position of the series.
\<close>

theorem z_score_constant_series_empty:
  assumes "3 \<le> length s" and "pstd (map snd s) = 0"
  shows "z_score_anomalies exact s t = []
     \<and> (\<forall>i < length s. np_zscore exact (map snd s) i = NaN)
     \<and> (\<forall>A. (\<forall>i < length s. np_zscore A (map snd s) i = NaN) \<longrightarrow>
            z_score_anomalies A s t = [])"
proof -
  from assms(1) have ne: "map snd s \<noteq> []" by auto
  have nan: "np_zscore exact (map snd s) i = NaN" if "i < length s" for i
  proof -
    from that have "map snd s ! i \<in> set (map snd s)"
      by (metis length_map nth_mem)
    from pstd_zero_all_mean [OF ne assms(2) this] have "map snd s ! i - mean (map snd s) = 0"
      by simp
    with assms(2) show ?thesis
      by (simp add: exact_simps exact_zscore_def)
  qed
  have gen: "z_score_anomalies A s t = []"
    if "\<forall>i < length s. np_zscore A (map snd s) i = NaN" for A
  proof -
    from that have "z_scores_of A (map snd s) = replicate (length s) NaN"
      unfolding z_scores_of_def by (intro nth_equalityI) simp_all
    then have "\<forall>p \<in> set (zip s (z_scores_of A (map snd s))). snd p = NaN"
      by (auto simp: set_zip)
    then have "filter (\<lambda>((date, value), z). fgt z t) (zip s (z_scores_of A (map snd s))) = []"
      by (auto simp: filter_empty_conv)
    then show ?thesis
      by (simp add: z_score_anomalies_def)
  qed
  from nan gen [of exact] gen show ?thesis by blast
qed

theorem z_score_constant_series_empty_witness:
  "3 \<le> length [(0::nat, 5::real), (1, 5), (2, 5)]
   \<and> pstd (map snd [(0::nat, 5::real), (1, 5), (2, 5)]) = 0
   \<and> z_score_anomalies exact [(0::nat, 5), (1, 5), (2, 5)] 3 = []
   \<and> map (np_zscore exact [5, 5, 5]) [0, 1, 2] = [NaN, NaN, NaN]"
  using z_score_constant_series_empty [of "[(0::nat, 5), (1, 5), (2, 5)]" 3]
  by (simp add: pstd_def mean_def exact_simps exact_zscore_def)

subsection \<open>Too little data\<close>

text \<open>
  Claim C8. A series shorter than a detector's minimum length (3 for Z-score, 5 for IQR,
  the window for the rolling deviation) makes that detector return the empty list; for
  the rolling detector, the only one that can raise, the result is a normal return. This
  holds whatever the library computes.
\<close>

theorem short_series_no_findings:
  "(length s < 3 \<longrightarrow> z_score_anomalies A s t = [])
   \<and> (length s < 5 \<longrightarrow> iqr_outliers A s = [])
   \<and> (length s < w \<longrightarrow> rolling_average_deviation A s w = Inr [])"
proof (intro conjI impI)
  assume "length s < 3"
  then show "z_score_anomalies A s t = []"
    by (simp add: z_score_anomalies_def)
next
  assume "length s < 5"
  then show "iqr_outliers A s = []"
    by (simp add: iqr_outliers_def)
next
  assume "length s < w"
  then show "rolling_average_deviation A s w = Inr []"
    by (simp add: rolling_average_deviation_def)
qed

theorem short_series_no_findings_witness:
  "length [(0::nat, 7::real), (1, 900)] < 3
   \<and> z_score_anomalies exact [(0::nat, 7), (1, 900)] 3 = []
   \<and> length [(0::nat, 7::real), (1, 900)] < 5 \<and> iqr_outliers exact [(0::nat, 7), (1, 900)] = []
   \<and> length [(0::nat, 7::real), (1, 900)] < 30
   \<and> rolling_average_deviation exact [(0::nat, 7), (1, 900)] 30 = Inr []"
  using short_series_no_findings [of "[(0::nat, 7), (1, 900)]" exact 3 30]
  by simp

subsection \<open>The rolling detector\<close>

lemmas exact_rolling =
  rolling_average_deviation_def rolling_mean_def deviation_pct_of_def exact_rolling_mean_def
  label_count_def exact_simps d_sub_def d_div_def

text \<open>
  Claim C10. A series exactly as long as the window passes the length test and still gives
  the empty list, because the loop starts at position \<open>window\<close>; whenever the detector
  returns a finding, the series has at least \<open>window + 1\<close> points. This holds whatever
  the library computes.
\<close>

theorem rolling_window_length_empty:
  "(length s = w \<longrightarrow> rolling_average_deviation A s w = Inr [])
   \<and> (\<forall>fs. rolling_average_deviation A s w = Inr fs \<and> fs \<noteq> [] \<longrightarrow> w + 1 \<le> length s)"
proof (intro conjI impI allI)
  assume "length s = w"
  then show "rolling_average_deviation A s w = Inr []"
    by (simp add: rolling_average_deviation_def)
next
  fix fs
  assume a: "rolling_average_deviation A s w = Inr fs \<and> fs \<noteq> []"
  show "w + 1 \<le> length s"
  proof (rule ccontr)
    assume "\<not> w + 1 \<le> length s"
    then have "length s \<le> w" by simp
    then have "rolling_average_deviation A s w = Inr []"
      by (simp add: rolling_average_deviation_def)
    with a show False by auto
  qed
qed

theorem rolling_window_length_empty_witness:
  "length [(0::nat, 1::real), (1, 7)] = 2
   \<and> rolling_average_deviation exact [(0::nat, 1), (1, 7)] 2 = Inr []
   \<and> rolling_average_deviation exact [(0::nat, 1), (1, 1), (2, 7)] 2
       = Inr [Rolling_deviation 2 7 (Fin 4) (Fin (3 / 4))]
   \<and> [Rolling_deviation (2::nat) 7 (Fin 4) (Fin (3 / 4))] \<noteq> []
   \<and> 2 + 1 \<le> length [(0::nat, 1::real), (1, 1), (2, 7)]"
  using rolling_window_length_empty [of "[(0::nat, 1), (1, 7)]" 2 exact]
    rolling_window_length_empty [of "[(0::nat, 1), (1, 1), (2, 7)]" 2 exact]
  by (simp add: exact_rolling)


text \<open>A label that occurs at two positions is counted at least twice.\<close>

lemma label_count_two:
  assumes "i < j" and "j < length s" and "fst (s ! i) = d" and "fst (s ! j) = d"
  shows "2 \<le> label_count s d"
proof -
  have "{i, j} \<subseteq> {k. k < length s \<and> fst (s ! k) = d}"
    using assms by auto
  moreover have "finite {k. k < length s \<and> fst (s ! k) = d}" by simp
  ultimately have "card {i, j} \<le> card {k. k < length s \<and> fst (s ! k) = d}"
    by (rule card_mono [rotated])
  moreover have "card {i, j} = 2" using assms(1) by simp
  ultimately show ?thesis
    by (simp add: label_count_def length_filter_conv_card)
qed

lemma label_unique:
  assumes "label_count s (fst (s ! j)) \<le> 1" and "i < length s" and "j < length s"
    and "fst (s ! i) = fst (s ! j)"
  shows "i = j"
proof (rule ccontr)
  assume "i \<noteq> j"
  then consider "i < j" | "j < i" by linarith
  then have "2 \<le> label_count s (fst (s ! j))"
  proof cases
    case 1
    from label_count_two [OF 1 assms(3) assms(4) refl] show ?thesis .
  next
    case 2
    from label_count_two [OF 2 assms(2) refl assms(4)] show ?thesis .
  qed
  with assms(1) show False by simp
qed

lemma rolling_loop_eq:
  "rolling_loop s rm dev is =
     (if \<exists>i \<in> set is. 1 < label_count s (fst (s ! i)) then Inl ValueError
      else Inr (map (rolling_finding s rm dev) (filter (\<lambda>i. fgt (dev ! i) (1 / 2)) is)))"
  by (induction "is") (auto simp: Let_def rolling_finding_def)

lemma rolling_mean_nth:
  "i < length xs \<Longrightarrow> rolling_mean A xs w ! i = np_rolling_mean A xs w i"
  by (simp add: rolling_mean_def)

lemma deviation_at_nth:
  "i < length xs \<Longrightarrow> deviation_pct_of A xs (rolling_mean A xs w) ! i = deviation_at A xs w i"
  by (simp add: deviation_pct_of_def rolling_mean_def deviation_at_def)

text \<open>The detector in one equation: the error, or the findings of the flagged positions.\<close>

lemma rolling_result:
  "rolling_average_deviation A s w =
     (if \<exists>i \<in> set [w..<length s]. 1 < label_count s (fst (s ! i)) then Inl ValueError
      else Inr (map (finding_at_position A s w) (flagged_positions A s w)))"
proof -
  let ?rm = "rolling_mean A (map snd s) w"
  let ?dev = "deviation_pct_of A (map snd s) ?rm"
  have f: "filter (\<lambda>i. fgt (?dev ! i) (1 / 2)) [w..<length s] = flagged_positions A s w"
    unfolding flagged_positions_def
    by (rule filter_cong) (simp_all add: deviation_at_nth)
  have m: "map (rolling_finding s ?rm ?dev) (flagged_positions A s w)
           = map (finding_at_position A s w) (flagged_positions A s w)"
    by (rule map_cong)
      (simp_all add: flagged_positions_def rolling_finding_def finding_at_position_def
         deviation_at_nth rolling_mean_nth)
  show ?thesis
  proof (cases "length s < w")
    case True
    then show ?thesis
      by (simp add: rolling_average_deviation_def flagged_positions_def)
  next
    case False
    then show ?thesis
      by (simp add: rolling_average_deviation_def Let_def rolling_loop_eq f m)
  qed
qed

lemma rolling_returns_iff:
  "(\<exists>fs. rolling_average_deviation A s w = Inr fs)
   \<longleftrightarrow> (\<forall>i. w \<le> i \<and> i < length s \<longrightarrow> label_count s (fst (s ! i)) \<le> 1)"
  by (auto simp: rolling_result not_less)



lemma rolling_findings:
  assumes "rolling_average_deviation A s w = Inr fs"
  shows "fs = map (finding_at_position A s w) (flagged_positions A s w)"
    and "\<And>i. w \<le> i \<Longrightarrow> i < length s \<Longrightarrow> label_count s (fst (s ! i)) \<le> 1"
  using assms by (auto simp: rolling_result not_less split: if_splits)

lemma rolling_flagged_iff:
  assumes r: "rolling_average_deviation A s w = Inr fs" and i: "i < length s"
  shows "(\<exists>f \<in> set fs. f_date f = fst (s ! i))
         \<longleftrightarrow> w \<le> i \<and> fgt (deviation_at A (map snd s) w i) (1 / 2)"
proof
  assume "\<exists>f \<in> set fs. f_date f = fst (s ! i)"
  then obtain j where j: "w \<le> j" "j < length s" "fgt (deviation_at A (map snd s) w j) (1 / 2)"
    "fst (s ! j) = fst (s ! i)"
    unfolding rolling_findings(1) [OF r]
    by (auto simp: flagged_positions_def finding_at_position_def)
  from label_unique [OF rolling_findings(2) [OF r j(1,2)] i j(2)] j(4) have "i = j" by simp
  with j show "w \<le> i \<and> fgt (deviation_at A (map snd s) w i) (1 / 2)" by simp
next
  assume "w \<le> i \<and> fgt (deviation_at A (map snd s) w i) (1 / 2)"
  with i have "i \<in> set (flagged_positions A s w)"
    by (simp add: flagged_positions_def)
  then have "finding_at_position A s w i \<in> set fs"
    unfolding rolling_findings(1) [OF r] by simp
  then show "\<exists>f \<in> set fs. f_date f = fst (s ! i)"
    by (rule bexI [rotated]) (simp add: finding_at_position_def)
qed

lemma rolling_finding_position:
  assumes r: "rolling_average_deviation A s w = Inr fs" and f: "f \<in> set fs"
  shows "\<exists>i. w \<le> i \<and> i < length s \<and> f = finding_at_position A s w i
            \<and> label_count s (fst (s ! i)) \<le> 1"
proof -
  from f obtain i where i: "i \<in> set (flagged_positions A s w)" "f = finding_at_position A s w i"
    unfolding rolling_findings(1) [OF r] by auto
  then have "w \<le> i" "i < length s" by (simp_all add: flagged_positions_def)
  with i(2) rolling_findings(2) [OF r this] show ?thesis by blast
qed

lemma exact_rolling_mean_defined:
  "0 < w \<Longrightarrow> w \<le> i + 1 \<Longrightarrow>
   np_rolling_mean exact xs w i = Fin (sum_list (take w (drop (i + 1 - w) xs)) / real w)"
  by (simp add: exact_simps exact_rolling_mean_def)

text \<open>
  Claim C6, amended. The rolling detector returns unless a date at a position from
  \<open>window\<close> on occurs twice in the index (then it raises ValueError). When it returns,
  none of the first \<open>window\<close> positions is flagged, and a position from \<open>window\<close> on is
  flagged exactly when the double that the program computes as the absolute value of
  \<open>(value - rolling_mean) / rolling_mean\<close> exceeds 0.5. The rolling mean at a position
  is, up to rounding, the mean of the \<open>window\<close> values ending at that position, its own
  value included.
\<close>

theorem rolling_flag_characterisation:
  "((\<exists>fs. rolling_average_deviation A s w = Inr fs)
      \<longleftrightarrow> (\<forall>i. w \<le> i \<and> i < length s \<longrightarrow> label_count s (fst (s ! i)) \<le> 1))
   \<and> (\<forall>fs i. rolling_average_deviation A s w = Inr fs \<and> i < length s \<longrightarrow>
         ((\<exists>f \<in> set fs. f_date f = fst (s ! i))
            \<longleftrightarrow> w \<le> i \<and> fgt (deviation_at A (map snd s) w i) (1 / 2)))
   \<and> (0 < w \<and> w \<le> k + 1 \<longrightarrow>
         np_rolling_mean exact xs w k = Fin (sum_list (take w (drop (k + 1 - w) xs)) / real w))"
proof (intro conjI allI impI)
  show "(\<exists>fs. rolling_average_deviation A s w = Inr fs)
      \<longleftrightarrow> (\<forall>i. w \<le> i \<and> i < length s \<longrightarrow> label_count s (fst (s ! i)) \<le> 1)"
    by (rule rolling_returns_iff)
next
  fix fs i
  assume "rolling_average_deviation A s w = Inr fs \<and> i < length s"
  then show "(\<exists>f \<in> set fs. f_date f = fst (s ! i))
            \<longleftrightarrow> w \<le> i \<and> fgt (deviation_at A (map snd s) w i) (1 / 2)"
    by (simp add: rolling_flagged_iff)
next
  assume "0 < w \<and> w \<le> k + 1"
  then show "np_rolling_mean exact xs w k
      = Fin (sum_list (take w (drop (k + 1 - w) xs)) / real w)"
    by (simp add: exact_rolling_mean_defined)
qed

theorem rolling_flag_characterisation_witness:
  "rolling_average_deviation exact [(0::nat, 1), (1, 1), (2, 7)] 2
       = Inr [Rolling_deviation 2 7 (Fin 4) (Fin (3 / 4))]
   \<and> label_count [(0::nat, 1::real), (1, 1), (2, 7)] 2 \<le> 1
   \<and> 2 < length [(0::nat, 1::real), (1, 1), (2, 7)]
   \<and> (2::nat) \<le> 2 \<and> fgt (deviation_at exact (map snd [(0::nat, 1::real), (1, 1), (2, 7)]) 2 2) (1 / 2)
   \<and> (0::nat) < 2 \<and> (2::nat) \<le> 2 + 1
   \<and> np_rolling_mean exact [1, 1, 7] 2 2 = Fin 4"
  using rolling_flag_characterisation [of exact "[(0::nat, 1), (1, 1), (2, 7)]" 2 2 "[1, 1, 7]"]
  by (simp add: exact_rolling deviation_at_def)

text \<open>
  The claim as written fails on the counts 1, 7, 7 with window 2, where the detector flags
  nothing. Position 1 has a defined average in the program (4, the mean of 1 and 7) and
  its ratio 3/4 exceeds 0.5, yet it is skipped. Position 2 has the average 4 over the two
  points before it, with the same ratio, yet it is not flagged: the program averages 7 and
  7. Every number here is a double, so the library computes them without rounding.
\<close>

theorem rolling_flag_counterexample:
  "rolling_average_deviation exact [(0::nat, 1), (1, 7), (2, 7)] 2 = Inr []
   \<and> np_rolling_mean exact [1, 7, 7] 2 1 = Fin 4
   \<and> np_rolling_mean exact [1, 7, 7] 2 2 = Fin 7
   \<and> spec_preceding_mean [1, 7, 7] 2 2 = Some 4
   \<and> 1 / 2 < \<bar>7 - 4\<bar> / (4::real)"
  by (simp add: exact_rolling spec_preceding_mean_def)

subsection \<open>A rolling mean of zero\<close>









section \<open>Properties of the aggregation\<close>

subsection \<open>The dictionary of candidates\<close>

lemma map_of_add_finding:
  "map_of (add_finding fs k e) k' =
     (if k' = k
      then Some (record_method e (case map_of fs k of None \<Rightarrow> new_candidate e | Some c \<Rightarrow> c))
      else map_of fs k')"
  by (induction fs k e rule: add_finding.induct) auto

lemma keys_add_finding:
  "map fst (add_finding fs k e) = (if k \<in> set (map fst fs) then map fst fs else map fst fs @ [k])"
  by (induction fs k e rule: add_finding.induct) auto

lemma distinct_add_finding:
  "distinct (map fst fs) \<Longrightarrow> distinct (map fst (add_finding fs k e))"
  by (simp add: keys_add_finding)

lemma distinct_add_all:
  "distinct (map fst fs) \<Longrightarrow> distinct (map fst (add_all fs anoms))"
  unfolding add_all_def
  by (induction anoms arbitrary: fs) (simp_all add: distinct_add_finding)

lemma add_all_Cons:
  "add_all fs (a # anoms) = add_all (add_finding fs (f_date a) a) anoms"
  by (simp add: add_all_def)

lemma add_all_append:
  "add_all fs (xs @ ys) = add_all (add_all fs xs) ys"
  by (simp add: add_all_def)

lemma record_all_Cons:
  "record_all c (e # es) = record_all (record_method e c) es"
  by (simp add: record_all_def)

lemma record_all_snoc:
  "record_all c (es @ [e]) = record_method e (record_all c es)"
  by (simp add: record_all_def)

lemma map_of_add_all:
  "map_of (add_all fs anoms) d =
     (case map_of fs d of
        Some c \<Rightarrow> Some (record_all c (entries_at d anoms))
      | None \<Rightarrow>
          (case entries_at d anoms of
             [] \<Rightarrow> None
           | e # es \<Rightarrow> Some (record_all (new_candidate e) (e # es))))"
proof (induction anoms arbitrary: fs)
  case Nil
  then show ?case
    by (simp add: add_all_def entries_at_def record_all_def split: option.splits)
next
  case (Cons a anoms)
  show ?case
  proof (cases "f_date a = d")
    case True
    then have e: "entries_at d (a # anoms) = a # entries_at d anoms"
      by (simp add: entries_at_def)
    show ?thesis
      unfolding add_all_Cons Cons.IH e
      using True by (simp add: map_of_add_finding record_all_Cons split: option.splits)
  next
    case False
    then have e: "entries_at d (a # anoms) = entries_at d anoms"
      by (simp add: entries_at_def)
    show ?thesis
      unfolding add_all_Cons Cons.IH e
      using False by (simp add: map_of_add_finding)
  qed
qed

lemma methods_record_all:
  "methods (record_all c es) = methods c @ map method_name es"
  by (induction es arbitrary: c) (simp_all add: record_all_def record_method_def)

lemma c_date_record_all: "c_date (record_all c es) = c_date c"
  by (induction es arbitrary: c) (simp_all add: record_all_def record_method_def)

lemma c_value_record_all: "c_value (record_all c es) = c_value c"
  by (induction es arbitrary: c) (simp_all add: record_all_def record_method_def)

lemma details_record_all:
  "details (record_all c es) m =
     (if filter (\<lambda>e. method_name e = m) es = [] then details c m
      else Some (last (filter (\<lambda>e. method_name e = m) es)))"
proof (induction es rule: rev_induct)
  case Nil
  then show ?case by (simp add: record_all_def)
next
  case (snoc a es)
  show ?case
  proof (cases "method_name a = m")
    case True
    then show ?thesis
      by (simp add: record_all_snoc record_method_def)
  next
    case False
    then show ?thesis
      using snoc by (simp add: record_all_snoc record_method_def)
  qed
qed

text \<open>The candidate of a date in the dictionary the report builds.\<close>

lemma map_of_findings:
  "map_of (add_all [] anoms) d =
     (case entries_at d anoms of
        [] \<Rightarrow> None
      | e # es \<Rightarrow> Some (record_all (new_candidate e) (e # es)))"
  by (simp add: map_of_add_all)

lemma findings_of_add_all:
  "findings_of z i r = add_all [] (z @ i @ r)"
  by (simp add: findings_of_def add_all_append)

lemma candidate_in_findings:
  assumes "(k, c) \<in> set (add_all [] anoms)"
  shows "\<exists>e es. entries_at k anoms = e # es \<and> c = record_all (new_candidate e) (e # es)"
proof -
  have "distinct (map fst (add_all [] anoms))"
    by (rule distinct_add_all) simp
  with assms have "map_of (add_all [] anoms) k = Some c"
    by simp
  then show ?thesis
    by (simp add: map_of_findings split: list.splits)
qed

lemma candidate_methods:
  assumes "(k, c) \<in> set (add_all [] anoms)"
  shows "methods c = map method_name (entries_at k anoms)" and "c_date c = k"
    and "entries_at k anoms \<noteq> []" and "c_value c = f_value (hd (entries_at k anoms))"
proof -
  from candidate_in_findings [OF assms] obtain e es
    where e: "entries_at k anoms = e # es" and c: "c = record_all (new_candidate e) (e # es)"
    by blast
  show "methods c = map method_name (entries_at k anoms)"
    unfolding c e by (simp add: methods_record_all new_candidate_def)
  have "e \<in> set (entries_at k anoms)" using e by simp
  then have "f_date e = k" by (simp add: entries_at_def)
  then show "c_date c = k"
    unfolding c by (simp add: c_date_record_all new_candidate_def)
  show "entries_at k anoms \<noteq> []" using e by simp
  show "c_value c = f_value (hd (entries_at k anoms))"
    unfolding c e by (simp add: c_value_record_all new_candidate_def)
qed

lemma candidate_details:
  assumes "(k, c) \<in> set (add_all [] anoms)"
  shows "details c m =
     (if filter (\<lambda>e. method_name e = m) (entries_at k anoms) = [] then None
      else Some (last (filter (\<lambda>e. method_name e = m) (entries_at k anoms))))"
proof -
  from candidate_in_findings [OF assms] obtain e es
    where e: "entries_at k anoms = e # es" and c: "c = record_all (new_candidate e) (e # es)"
    by blast
  show ?thesis
    unfolding c e [symmetric]
    by (simp add: details_record_all new_candidate_def)
qed


subsection \<open>What the detectors return\<close>

lemma z_score_finding:
  assumes "f \<in> set (z_score_anomalies A s t)"
  shows "\<exists>d v z. f = Z_score d v z \<and> (d, v) \<in> set s \<and> fgt z t"
  using assms
  by (auto simp: z_score_anomalies_def Let_def split: if_splits dest: set_zip_leftD)

lemma iqr_finding:
  assumes "f \<in> set (iqr_outliers A s)"
  shows "\<exists>d v l u. f = Iqr d v l u \<and> (d, v) \<in> set s"
  using assms
  by (auto simp: iqr_outliers_def Let_def split: if_splits)

lemma rolling_finding_shape:
  assumes "rolling_average_deviation A s w = Inr r" and "f \<in> set r"
  shows "\<exists>i m p. w \<le> i \<and> i < length s \<and> f = Rolling_deviation (fst (s ! i)) (snd (s ! i)) m p"
  using rolling_finding_position [OF assms]
  unfolding finding_at_position_def by blast

lemma z_score_dates_distinct:
  assumes "distinct (map fst s)"
  shows "distinct (map f_date (z_score_anomalies A s t))"
proof (cases "length s < 3")
  case True
  then show ?thesis by (simp add: z_score_anomalies_def)
next
  case False
  let ?zs = "z_scores_of A (map snd s)"
  let ?P = "\<lambda>((date, value), z). fgt z t"
  have len: "length ?zs = length s" by (simp add: z_scores_of_def)
  have "map f_date (z_score_anomalies A s t) = map (fst \<circ> fst) (filter ?P (zip s ?zs))"
    using False by (simp add: z_score_anomalies_def Let_def comp_def case_prod_beta)
  moreover have "map (fst \<circ> fst) (zip s ?zs) = map fst s"
    using len by (simp add: map_fst_zip flip: map_map)
  then have "distinct (map (fst \<circ> fst) (zip s ?zs))"
    using assms by simp
  then have "distinct (map (fst \<circ> fst) (filter ?P (zip s ?zs)))"
    by (rule distinct_map_filter)
  ultimately show ?thesis by simp
qed


text \<open>
  When the rolling detector returns, the dates of its findings are pairwise distinct, and
  each occurs once in the whole series: a repeated date would have raised.
\<close>

lemma rolling_dates_distinct:
  assumes r: "rolling_average_deviation A s w = Inr fs"
  shows "distinct (map f_date fs)"
proof -
  have d: "map f_date fs = map (\<lambda>i. fst (s ! i)) (flagged_positions A s w)"
    unfolding rolling_findings(1) [OF r] by (simp add: comp_def finding_at_position_def)
  have "inj_on (\<lambda>i. fst (s ! i)) (set (flagged_positions A s w))"
  proof (rule inj_onI)
    fix i j
    assume i: "i \<in> set (flagged_positions A s w)" and j: "j \<in> set (flagged_positions A s w)"
      and e: "fst (s ! i) = fst (s ! j)"
    from i j have b: "w \<le> i" "i < length s" "w \<le> j" "j < length s"
      by (simp_all add: flagged_positions_def)
    from label_unique [OF rolling_findings(2) [OF r b(3,4)] b(2) b(4) e] show "i = j" .
  qed
  moreover have "distinct (flagged_positions A s w)"
    by (simp add: flagged_positions_def)
  ultimately show ?thesis
    unfolding d by (simp add: distinct_map)
qed

subsection \<open>Entries of one date\<close>

lemma entries_at_append:
  "entries_at d (xs @ ys) = entries_at d xs @ entries_at d ys"
  by (simp add: entries_at_def)

lemma entries_at_distinct:
  assumes "distinct (map f_date anoms)"
  shows "entries_at d anoms = [] \<or> (\<exists>e. entries_at d anoms = [e])"
  using assms unfolding entries_at_def
proof (induction anoms)
  case Nil
  then show ?case by simp
next
  case (Cons a anoms)
  show ?case
  proof (cases "f_date a = d")
    case True
    with Cons.prems have "d \<notin> f_date ` set anoms" by auto
    then have "filter (\<lambda>e. f_date e = d) anoms = []"
      by (auto simp: filter_empty_conv)
    with True show ?thesis by simp
  next
    case False
    with Cons show ?thesis by simp
  qed
qed

lemma entries_at_member:
  assumes "distinct (map f_date anoms)" and "e \<in> set anoms"
  shows "entries_at (f_date e) anoms = [e]"
proof -
  have "e \<in> set (entries_at (f_date e) anoms)"
    using assms(2) by (simp add: entries_at_def)
  with entries_at_distinct [OF assms(1), of "f_date e"] show ?thesis by auto
qed

lemma entries_at_none:
  "entries_at d anoms = [] \<longleftrightarrow> (\<forall>e \<in> set anoms. f_date e \<noteq> d)"
  by (auto simp: entries_at_def filter_empty_conv)

lemma z_score_method:
  "e \<in> set (entries_at d (z_score_anomalies A s t)) \<Longrightarrow> method_name e = ''z_score''"
  by (auto simp: entries_at_def dest: z_score_finding)

lemma iqr_method:
  "e \<in> set (entries_at d (iqr_outliers A s)) \<Longrightarrow> method_name e = ''iqr''"
  by (auto simp: entries_at_def dest: iqr_finding)

lemma rolling_method:
  "rolling_average_deviation A s w = Inr r \<Longrightarrow> e \<in> set (entries_at d r) \<Longrightarrow>
   method_name e = ''rolling_deviation''"
  by (auto simp: entries_at_def dest: rolling_finding_shape)

lemma entries_atD:
  "e \<in> set (entries_at k anoms) \<Longrightarrow> e \<in> set anoms \<and> f_date e = k"
  by (simp add: entries_at_def)

lemma kept_finding_None: "kept_finding d anoms = None \<longleftrightarrow> (\<forall>e \<in> set anoms. f_date e \<noteq> d)"
  by (simp add: kept_finding_def entries_at_none)

lemma kept_finding_Some:
  "kept_finding d anoms = Some f \<Longrightarrow> f \<in> set anoms \<and> f_date f = d"
  by (auto simp: kept_finding_def split: if_splits dest: last_in_set entries_atD)

lemma kept_finding_unique:
  assumes "distinct (map f_date anoms)" and "f \<in> set anoms"
  shows "kept_finding (f_date f) anoms = Some f"
  using entries_at_member [OF assms] by (simp add: kept_finding_def)

subsection \<open>The report\<close>

lemma anomaly_report_eq:
  assumes "rolling_average_deviation A s 30 = Inr r"
  shows "anomaly_report A s st di =
     Inr (cross_validate A s st di
            (add_all [] (z_score_anomalies A s 3 @ iqr_outliers A s @ r)))"
    and "detector_findings A s = z_score_anomalies A s 3 @ iqr_outliers A s @ r"
  using assms
  by (simp_all add: anomaly_report_def detector_findings_def findings_of_add_all)

lemma anomaly_report_returns:
  assumes "anomaly_report A s st di = Inr vs"
  shows "\<exists>r. rolling_average_deviation A s 30 = Inr r
           \<and> vs = cross_validate A s st di
                    (add_all [] (z_score_anomalies A s 3 @ iqr_outliers A s @ r))"
proof (cases "rolling_average_deviation A s 30")
  case (Inl e)
  with assms show ?thesis by (simp add: anomaly_report_def)
next
  case (Inr r)
  with anomaly_report_eq(1) [OF Inr, of st di] assms show ?thesis by simp
qed

lemma validated_anomaly_fields:
  "date (validated_anomaly A s st di c) = c_date c"
  "detection_methods (validated_anomaly A s st di c) = methods c"
  "anomaly_value (validated_anomaly A s st di c) = c_value c"
  by (simp_all add: validated_anomaly_def Let_def)

lemma alert_candidate:
  assumes "v \<in> set (cross_validate A s st di (add_all [] anoms))"
  shows "\<exists>c. (date v, c) \<in> set (add_all [] anoms) \<and> 2 \<le> length (methods c)
            \<and> v = validated_anomaly A s st di c"
proof -
  from assms obtain k c where kc: "(k, c) \<in> set (add_all [] anoms)"
    and m: "2 \<le> length (methods c)" and v: "v = validated_anomaly A s st di c"
    by (auto simp: cross_validate_def)
  from candidate_methods(2) [OF kc] have "date v = k"
    by (simp add: v validated_anomaly_fields)
  with kc m v show ?thesis by blast
qed




subsection \<open>Details of a candidate\<close>

lemma filter_method_none:
  assumes "\<And>e. e \<in> set es \<Longrightarrow> method_name e \<noteq> m"
  shows "filter (\<lambda>e. method_name e = m) es = []"
  using assms by (simp add: filter_empty_conv)

lemma filter_method_all:
  assumes "\<And>e. e \<in> set es \<Longrightarrow> method_name e = m"
  shows "filter (\<lambda>e. method_name e = m) es = es"
  using assms by (simp add: filter_id_conv)

lemma details_rolling:
  assumes c: "(k, c) \<in> set (add_all [] (z_score_anomalies A s t @ iqr_outliers A s @ r))"
    and r: "rolling_average_deviation A s w = Inr r"
  shows "details c ''rolling_deviation'' = kept_finding k r"
proof -
  let ?P = "\<lambda>e::'a finding. method_name e = ''rolling_deviation''"
  have "filter ?P (entries_at k (z_score_anomalies A s t)) = []"
    by (rule filter_method_none) (simp add: z_score_method)
  moreover have "filter ?P (entries_at k (iqr_outliers A s)) = []"
    by (rule filter_method_none) (simp add: iqr_method)
  moreover have "filter ?P (entries_at k r) = entries_at k r"
    by (rule filter_method_all) (rule rolling_method [OF r])
  ultimately have "filter ?P (entries_at k (z_score_anomalies A s t @ iqr_outliers A s @ r))
                   = entries_at k r"
    by (simp add: entries_at_append)
  then show ?thesis
    by (simp add: candidate_details [OF c] kept_finding_def)
qed

lemma details_z_score:
  assumes c: "(k, c) \<in> set (add_all [] (z_score_anomalies A s t @ iqr_outliers A s @ r))"
    and r: "rolling_average_deviation A s w = Inr r"
  shows "details c ''z_score'' = kept_finding k (z_score_anomalies A s t)"
proof -
  let ?P = "\<lambda>e::'a finding. method_name e = ''z_score''"
  have "filter ?P (entries_at k (z_score_anomalies A s t))
        = entries_at k (z_score_anomalies A s t)"
    by (rule filter_method_all) (rule z_score_method)
  moreover have "filter ?P (entries_at k (iqr_outliers A s)) = []"
    by (rule filter_method_none) (simp add: iqr_method)
  moreover have "filter ?P (entries_at k r) = []"
    by (rule filter_method_none) (simp add: rolling_method [OF r])
  ultimately have "filter ?P (entries_at k (z_score_anomalies A s t @ iqr_outliers A s @ r))
                   = entries_at k (z_score_anomalies A s t)"
    by (simp add: entries_at_append)
  then show ?thesis
    by (simp add: candidate_details [OF c] kept_finding_def)
qed

lemma finding_in_series:
  assumes r: "rolling_average_deviation A s w = Inr r"
    and f: "f \<in> set (z_score_anomalies A s t @ iqr_outliers A s @ r)"
  shows "(f_date f, f_value f) \<in> set s"
proof -
  from f consider "f \<in> set (z_score_anomalies A s t)" | "f \<in> set (iqr_outliers A s)"
    | "f \<in> set r"
    by auto
  then show ?thesis
  proof cases
    case 1
    then show ?thesis by (auto dest: z_score_finding)
  next
    case 2
    then show ?thesis by (auto dest: iqr_finding)
  next
    case 3
    from rolling_finding_shape [OF r 3] obtain i m p where
      "i < length s" "f = Rolling_deviation (fst (s ! i)) (snd (s ! i)) m p" by blast
    then show ?thesis by (simp add: nth_mem)
  qed
qed

lemma candidate_value_in_series:
  assumes c: "(k, c) \<in> set (add_all [] (z_score_anomalies A s t @ iqr_outliers A s @ r))"
    and r: "rolling_average_deviation A s w = Inr r"
  shows "(k, c_value c) \<in> set s"
proof -
  let ?L = "z_score_anomalies A s t @ iqr_outliers A s @ r"
  have "hd (entries_at k ?L) \<in> set (entries_at k ?L)"
    using candidate_methods(3) [OF c] by (rule hd_in_set)
  then have "hd (entries_at k ?L) \<in> set ?L" "f_date (hd (entries_at k ?L)) = k"
    by (blast dest: entries_atD)+
  with finding_in_series [OF r, of "hd (entries_at k ?L)" t] candidate_methods(4) [OF c]
  show ?thesis by simp
qed

text \<open>
  Claim C2. For every row of a returned report, whatever the series: the row's value is a
  value of the series at the row's date; if the rolling detector has a finding for that
  date (it has at most one), the row is a drop when the value is strictly below the
  rolling mean of that finding and a spike otherwise; if the rolling detector has no
  finding for that date, the row is a drop when the value is strictly below the mean of
  the whole series and a spike otherwise.
\<close>

theorem direction_classification:
  assumes "anomaly_report A s st di = Inr vs" and "v \<in> set vs"
  shows "\<exists>r. rolling_average_deviation A s 30 = Inr r
     \<and> (date v, anomaly_value v) \<in> set s
     \<and> (\<forall>f \<in> set r. f_date f = date v \<longrightarrow>
          anomaly_type v
            = (if fgt (roll_mean f) (anomaly_value v) then ''drop'' else ''spike''))
     \<and> ((\<forall>f \<in> set r. f_date f \<noteq> date v) \<longrightarrow>
          anomaly_type v
            = (if fgt (np_mean A (map snd s)) (anomaly_value v) then ''drop'' else ''spike''))
     \<and> distinct (map f_date r)"
proof -
  from anomaly_report_returns [OF assms(1)] obtain r where
    r: "rolling_average_deviation A s 30 = Inr r"
    and vs: "vs = cross_validate A s st di
                    (add_all [] (z_score_anomalies A s 3 @ iqr_outliers A s @ r))"
    by blast
  let ?L = "z_score_anomalies A s 3 @ iqr_outliers A s @ r"
  from assms(2) vs have "v \<in> set (cross_validate A s st di (add_all [] ?L))" by simp
  from alert_candidate [OF this] obtain c where
    c: "(date v, c) \<in> set (add_all [] ?L)" and vc: "v = validated_anomaly A s st di c"
    by blast
  have val: "anomaly_value v = c_value c"
    by (simp add: vc validated_anomaly_fields)
  have det: "details c ''rolling_deviation'' = kept_finding (date v) r"
    by (rule details_rolling [OF c r])
  have 1: "(date v, anomaly_value v) \<in> set s"
    using candidate_value_in_series [OF c r] val by simp
  have 2: "anomaly_type v
            = (if fgt (roll_mean f) (anomaly_value v) then ''drop'' else ''spike'')"
    if f: "f \<in> set r" "f_date f = date v" for f
  proof -
    from kept_finding_unique [OF rolling_dates_distinct [OF r] f(1)] f(2) det
    have d: "details c ''rolling_deviation'' = Some f" by simp
    show ?thesis
      unfolding val by (simp add: vc validated_anomaly_def Let_def d)
  qed
  have 3: "anomaly_type v
            = (if fgt (np_mean A (map snd s)) (anomaly_value v) then ''drop'' else ''spike'')"
    if "\<forall>f \<in> set r. f_date f \<noteq> date v"
  proof -
    from that det have d: "details c ''rolling_deviation'' = None"
      by (simp add: kept_finding_None)
    show ?thesis
      unfolding val by (simp add: vc validated_anomaly_def Let_def d)
  qed
  from r 1 2 3 rolling_dates_distinct [OF r] show ?thesis by blast
qed

subsection \<open>Severity\<close>

lemma round_half_even_bounds:
  "\<lfloor>y\<rfloor> \<le> round_half_even y" "round_half_even y \<le> \<lceil>y\<rceil>"
proof -
  show "\<lfloor>y\<rfloor> \<le> round_half_even y"
    by (simp add: round_half_even_def Let_def)
  show "round_half_even y \<le> \<lceil>y\<rceil>"
  proof (cases "y - of_int \<lfloor>y\<rfloor> < 1 / 2")
    case True
    then have "round_half_even y = \<lfloor>y\<rfloor>"
      by (simp add: round_half_even_def Let_def)
    then show ?thesis by (simp add: floor_le_ceiling)
  next
    case False
    then have "of_int \<lfloor>y\<rfloor> \<noteq> y" by auto
    then have "\<lceil>y\<rceil> = \<lfloor>y\<rfloor> + 1"
      by (simp add: ceiling_altdef)
    then show ?thesis
      by (simp add: round_half_even_def Let_def)
  qed
qed

lemma round_half_even_of_int: "round_half_even (of_int k) = k"
  by (simp add: round_half_even_def Let_def)

text \<open>The rounding is to a nearest integer, and to the even one at a tie.\<close>

lemma round_half_even_nearest:
  "\<bar>of_int (round_half_even y) - y\<bar> \<le> 1 / 2"
  "\<bar>of_int (round_half_even y) - y\<bar> = 1 / 2 \<Longrightarrow> even (round_half_even y)"
proof -
  let ?d = "y - of_int \<lfloor>y\<rfloor>"
  have d: "0 \<le> ?d" "?d < 1" by linarith+
  consider "?d < 1 / 2" | "1 / 2 < ?d" | "?d = 1 / 2" by linarith
  then have "\<bar>of_int (round_half_even y) - y\<bar> \<le> 1 / 2
    \<and> (\<bar>of_int (round_half_even y) - y\<bar> = 1 / 2 \<longrightarrow> even (round_half_even y))"
  proof cases
    case 1
    then have "round_half_even y = \<lfloor>y\<rfloor>"
      by (simp add: round_half_even_def Let_def)
    with 1 d show ?thesis by simp
  next
    case 2
    then have "round_half_even y = \<lfloor>y\<rfloor> + 1"
      by (simp add: round_half_even_def Let_def)
    with 2 d show ?thesis by simp
  next
    case 3
    then have "round_half_even y = (if even \<lfloor>y\<rfloor> then \<lfloor>y\<rfloor> else \<lfloor>y\<rfloor> + 1)"
      by (simp add: round_half_even_def Let_def)
    with 3 show ?thesis by (cases "even \<lfloor>y\<rfloor>") simp_all
  qed
  then show "\<bar>of_int (round_half_even y) - y\<bar> \<le> 1 / 2"
    "\<bar>of_int (round_half_even y) - y\<bar> = 1 / 2 \<Longrightarrow> even (round_half_even y)"
    by blast+
qed

lemma py_round2_rounds:
  "\<exists>r. py_round2 (Fin y) = Fin r \<and> rounds_to_2dp y r"
proof -
  let ?k = "round_half_even (y * 100)"
  have "rounds_to_2dp y (of_int ?k / 100)"
    unfolding rounds_to_2dp_def
    using round_half_even_nearest [of "y * 100"] by blast
  moreover have "py_round2 (Fin y) = Fin (of_int ?k / 100)" by simp
  ultimately show ?thesis by blast
qed

lemma py_round2_bounds:
  assumes "0 \<le> y" and "y \<le> 10"
  shows "\<exists>x. py_round2 (Fin y) = Fin x \<and> 0 \<le> x \<and> x \<le> 10 \<and> (\<exists>k::int. x = of_int k / 100)"
proof -
  let ?k = "round_half_even (y * 100)"
  have "0 \<le> \<lfloor>y * 100\<rfloor>" using assms(1) by simp
  with round_half_even_bounds(1) [of "y * 100"] have lo: "0 \<le> ?k" by linarith
  have "\<lceil>y * 100\<rceil> \<le> 1000" using assms(2) by (simp add: ceiling_le_iff)
  with round_half_even_bounds(2) [of "y * 100"] have hi: "?k \<le> 1000" by linarith
  have "py_round2 (Fin y) = Fin (of_int ?k / 100)" by simp
  moreover have "0 \<le> (of_int ?k :: real) / 100" using lo by simp
  moreover have "(of_int ?k :: real) / 100 \<le> 10" using hi by simp
  ultimately show ?thesis by blast
qed

lemma py_round2_five: "py_round2 (Fin 5) = Fin 5"
  using round_half_even_of_int [of 500] by simp

lemma py_min_flagged:
  assumes "fgt z 3"
  shows "\<exists>y. py_min 10 z = Fin y \<and> 0 \<le> y \<and> y \<le> 10
            \<and> (\<forall>a. z = Fin a \<longrightarrow> y = min 10 a) \<and> (z = PInf \<longrightarrow> y = 10)"
  using assms by (cases z) (auto simp: py_min_def)

lemma rounds_to_2dp_five: "rounds_to_2dp 5 5"
  unfolding rounds_to_2dp_def by (intro exI [of _ 500]) simp

text \<open>
  Claim C3. For every row of a returned report, whatever the series: if the Z-score
  detector has no finding for the row's date, the severity is the default 5, which is its
  own rounding to two decimals. If it has one, the candidate keeps a finding of that date
  (the only one when the dates of the series are pairwise distinct, the last one reported
  otherwise); its z-score \<open>z\<close> is infinite or a number above 3, and the severity is
  \<open>min(10, z)\<close> rounded to two decimals: a whole number of hundredths nearest to it, the
  even one at a tie.
\<close>

theorem severity_scoring:
  assumes "anomaly_report A s st di = Inr vs" and "v \<in> set vs"
  shows "((\<forall>f \<in> set (z_score_anomalies A s 3). f_date f \<noteq> date v) \<longrightarrow>
            severity_score v = Fin 5 \<and> rounds_to_2dp 5 5)
     \<and> (\<forall>f \<in> set (z_score_anomalies A s 3). f_date f = date v \<longrightarrow>
          (\<exists>g \<in> set (z_score_anomalies A s 3). f_date g = date v
             \<and> kept_finding (date v) (z_score_anomalies A s 3) = Some g))
     \<and> (\<forall>g. kept_finding (date v) (z_score_anomalies A s 3) = Some g \<longrightarrow>
          (\<exists>y r. (z_score g = PInf \<and> y = 10
                    \<or> (\<exists>a. z_score g = Fin a \<and> 3 < a \<and> y = min 10 a))
             \<and> severity_score v = Fin r \<and> rounds_to_2dp y r))
     \<and> (distinct (map fst s) \<longrightarrow>
          (\<forall>f \<in> set (z_score_anomalies A s 3). f_date f = date v \<longrightarrow>
             kept_finding (date v) (z_score_anomalies A s 3) = Some f))"
proof -
  from anomaly_report_returns [OF assms(1)] obtain r where
    r: "rolling_average_deviation A s 30 = Inr r"
    and vs: "vs = cross_validate A s st di
                    (add_all [] (z_score_anomalies A s 3 @ iqr_outliers A s @ r))"
    by blast
  let ?z = "z_score_anomalies A s 3"
  let ?L = "?z @ iqr_outliers A s @ r"
  from assms(2) vs have "v \<in> set (cross_validate A s st di (add_all [] ?L))" by simp
  from alert_candidate [OF this] obtain c where
    c: "(date v, c) \<in> set (add_all [] ?L)" and vc: "v = validated_anomaly A s st di c"
    by blast
  have det: "details c ''z_score'' = kept_finding (date v) ?z"
    by (rule details_z_score [OF c r])
  have 1: "severity_score v = Fin 5 \<and> rounds_to_2dp 5 5"
    if "\<forall>f \<in> set ?z. f_date f \<noteq> date v"
  proof -
    from that det have d: "details c ''z_score'' = None"
      by (simp add: kept_finding_None)
    have "severity_score v = py_round2 (Fin 5)"
      by (simp add: vc validated_anomaly_def Let_def d)
    then show ?thesis by (simp only: py_round2_five rounds_to_2dp_five)
  qed
  have 2: "\<exists>g \<in> set ?z. f_date g = date v \<and> kept_finding (date v) ?z = Some g"
    if "f \<in> set ?z" "f_date f = date v" for f
  proof -
    from that have "kept_finding (date v) ?z \<noteq> None"
      by (auto simp: kept_finding_None)
    then obtain g where g: "kept_finding (date v) ?z = Some g" by auto
    with kept_finding_Some [OF g] show ?thesis by blast
  qed
  have 3: "\<exists>y r. (z_score g = PInf \<and> y = 10
                    \<or> (\<exists>a. z_score g = Fin a \<and> 3 < a \<and> y = min 10 a))
             \<and> severity_score v = Fin r \<and> rounds_to_2dp y r"
    if g: "kept_finding (date v) ?z = Some g" for g
  proof -
    from kept_finding_Some [OF g] have "g \<in> set ?z" by simp
    from z_score_finding [OF this] obtain d' v' z where
      gz: "g = Z_score d' v' z" and z: "fgt z 3" by blast
    from py_min_flagged [OF z] obtain y where
      y: "py_min 10 z = Fin y" "\<forall>a. z = Fin a \<longrightarrow> y = min 10 a" "z = PInf \<longrightarrow> y = 10"
      by blast
    from det g have d: "details c ''z_score'' = Some g" by simp
    have sev: "severity_score v = py_round2 (Fin y)"
      by (simp add: vc validated_anomaly_def Let_def d gz y(1))
    from py_round2_rounds [of y] obtain r' where
      r': "py_round2 (Fin y) = Fin r'" "rounds_to_2dp y r'" by blast
    have "z_score g = PInf \<and> y = 10 \<or> (\<exists>a. z_score g = Fin a \<and> 3 < a \<and> y = min 10 a)"
      using z y(2,3) by (cases z) (simp_all add: gz)
    with sev r' show ?thesis by auto
  qed
  have 4: "kept_finding (date v) ?z = Some f"
    if "distinct (map fst s)" "f \<in> set ?z" "f_date f = date v" for f
    using kept_finding_unique [OF z_score_dates_distinct [OF that(1)] that(2)] that(3)
    by simp
  from 1 2 3 4 show ?thesis by blast
qed

text \<open>
  Claim C5. Whatever the series and whatever the library computes, every row of a report
  that is returned has a finite severity between 0 and 10 inclusive that is a whole number
  of hundredths.
\<close>

theorem severity_bounded:
  assumes "anomaly_report A s st di = Inr vs" and "v \<in> set vs"
  shows "\<exists>x. severity_score v = Fin x \<and> 0 \<le> x \<and> x \<le> 10 \<and> (\<exists>k::int. x = of_int k / 100)"
proof -
  from anomaly_report_returns [OF assms(1)] obtain r where
    r: "rolling_average_deviation A s 30 = Inr r"
    and vs: "vs = cross_validate A s st di
                    (add_all [] (z_score_anomalies A s 3 @ iqr_outliers A s @ r))"
    by blast
  let ?z = "z_score_anomalies A s 3"
  let ?L = "?z @ iqr_outliers A s @ r"
  from assms(2) vs have "v \<in> set (cross_validate A s st di (add_all [] ?L))" by simp
  from alert_candidate [OF this] obtain c where
    c: "(date v, c) \<in> set (add_all [] ?L)" and vc: "v = validated_anomaly A s st di c"
    by blast
  have det: "details c ''z_score'' = kept_finding (date v) ?z"
    by (rule details_z_score [OF c r])
  have "\<exists>y. severity_score v = py_round2 (Fin y) \<and> 0 \<le> y \<and> y \<le> 10"
  proof (cases "kept_finding (date v) ?z")
    case None
    with det have "details c ''z_score'' = None" by simp
    then have "severity_score v = py_round2 (Fin 5)"
      by (simp add: vc validated_anomaly_def Let_def)
    then show ?thesis by (intro exI [of _ 5]) simp
  next
    case (Some f)
    with det have d: "details c ''z_score'' = Some f" by simp
    from kept_finding_Some [OF Some] have "f \<in> set ?z" by simp
    from z_score_finding [OF this] obtain d' v' z where
      fz: "f = Z_score d' v' z" and z: "fgt z 3" by blast
    from py_min_flagged [OF z] obtain y where y: "py_min 10 z = Fin y" "0 \<le> y" "y \<le> 10"
      by blast
    have "severity_score v = py_round2 (Fin y)"
      by (simp add: vc validated_anomaly_def Let_def d fz y(1))
    with y show ?thesis by blast
  qed
  then obtain y where y: "severity_score v = py_round2 (Fin y)" "0 \<le> y" "y \<le> 10"
    by blast
  from py_round2_bounds [OF y(2,3)] y(1) show ?thesis by simp
qed

subsection \<open>The examples, evaluated without rounding error\<close>

lemma sqrt_square_eq: "0 \<le> a \<Longrightarrow> a * a = v \<Longrightarrow> sqrt v = a"
  by (metis abs_of_nonneg real_sqrt_abs2)

lemma drop_mean: "mean (map snd example_drop) = 37"
  by (simp add: example_drop_def mean_def)

lemma drop_pstd: "pstd (map snd example_drop) = 6"
  unfolding pstd_def drop_mean
  by (simp add: example_drop_def sqrt_square_eq [of 6])

lemma drop_z: "z_score_anomalies exact example_drop 3 = [Z_score 36 1 (Fin 6)]"
  unfolding z_score_anomalies_def z_scores_of_def exact_simps exact_zscore_def
    drop_mean drop_pstd
  by (simp add: example_drop_def)

lemma drop_quantiles:
  "np_quantile exact (map snd example_drop) (1 / 4) = Fin 38"
  "np_quantile exact (map snd example_drop) (3 / 4) = Fin 38"
  by (simp_all add: example_drop_def quantile_def exact_simps)

lemma drop_iqr: "iqr_outliers exact example_drop = [Iqr 36 1 (Fin 38) (Fin 38)]"
  unfolding iqr_outliers_def drop_quantiles
  by (simp add: example_drop_def d_sub_def d_add_def d_mul_def exact_simps Let_def)

lemma drop_rolling: "rolling_average_deviation exact example_drop 30 = Inr [Rolling_deviation 36 1 (Fin (1103 / 30)) (Fin (1073 / 1103))]"
  by (simp add: example_drop_def exact_rolling)

lemma drop_report:
  "anomaly_report exact example_drop st di = Inr [\<lparr>date = 36, metric_name = ''daily_enrollments'', anomaly_value = 1,
           severity_score = Fin 6, anomaly_type = ''drop'',
           detection_methods = [''z_score'', ''iqr'', ''rolling_deviation''], district = di, state = st\<rparr>]"
  unfolding anomaly_report_def drop_z drop_iqr drop_rolling
  by (simp add: findings_of_def add_all_def cross_validate_def validated_anomaly_def
        record_method_def new_candidate_def py_min_def round_half_even_def drop_mean
        exact_simps)

lemma late_mean: "mean (map snd example_late_spike) = 10"
  by (simp add: example_late_spike_def mean_def)

lemma late_pstd: "pstd (map snd example_late_spike) = 3"
  unfolding pstd_def late_mean
  by (simp add: example_late_spike_def sqrt_square_eq [of 3])

lemma late_z: "z_score_anomalies exact example_late_spike 3 = []"
  unfolding z_score_anomalies_def z_scores_of_def exact_simps exact_zscore_def
    late_mean late_pstd
  by (simp add: example_late_spike_def)

lemma late_quantiles:
  "np_quantile exact (map snd example_late_spike) (1 / 4) = Fin 10"
  "np_quantile exact (map snd example_late_spike) (3 / 4) = Fin 10"
  by (simp_all add: example_late_spike_def quantile_def exact_simps)

lemma late_iqr: "iqr_outliers exact example_late_spike = [Iqr 0 1 (Fin 10) (Fin 10), Iqr 1 1 (Fin 10) (Fin 10), Iqr 2 19 (Fin 10) (Fin 10),
        Iqr 35 19 (Fin 10) (Fin 10)]"
  unfolding iqr_outliers_def late_quantiles
  by (simp add: example_late_spike_def d_sub_def d_add_def d_mul_def exact_simps Let_def)

lemma late_rolling: "rolling_average_deviation exact example_late_spike 30 = Inr [Rolling_deviation 35 19 (Fin (103 / 10)) (Fin (87 / 103))]"
  by (simp add: example_late_spike_def exact_rolling)

lemma late_report:
  "anomaly_report exact example_late_spike st di = Inr [\<lparr>date = 35, metric_name = ''daily_enrollments'', anomaly_value = 19,
           severity_score = Fin 5, anomaly_type = ''spike'',
           detection_methods = [''iqr'', ''rolling_deviation''], district = di, state = st\<rparr>]"
  unfolding anomaly_report_def late_z late_iqr late_rolling
  by (simp add: findings_of_def add_all_def cross_validate_def validated_anomaly_def
        record_method_def new_candidate_def py_min_def round_half_even_def late_mean
        exact_simps)

lemma short_mean: "mean (map snd example_short_spike) = 2"
  by (simp add: example_short_spike_def mean_def)

lemma short_pstd: "pstd (map snd example_short_spike) = 4"
  unfolding pstd_def short_mean
  by (simp add: example_short_spike_def sqrt_square_eq [of 4])

lemma short_z: "z_score_anomalies exact example_short_spike 3 = [Z_score 16 18 (Fin 4)]"
  unfolding z_score_anomalies_def z_scores_of_def exact_simps exact_zscore_def
    short_mean short_pstd
  by (simp add: example_short_spike_def)

lemma short_quantiles:
  "np_quantile exact (map snd example_short_spike) (1 / 4) = Fin 1"
  "np_quantile exact (map snd example_short_spike) (3 / 4) = Fin 1"
  by (simp_all add: example_short_spike_def quantile_def exact_simps)

lemma short_iqr: "iqr_outliers exact example_short_spike = [Iqr 16 18 (Fin 1) (Fin 1)]"
  unfolding iqr_outliers_def short_quantiles
  by (simp add: example_short_spike_def d_sub_def d_add_def d_mul_def exact_simps Let_def)

lemma short_rolling: "rolling_average_deviation exact example_short_spike 30 = Inr []"
  by (simp add: example_short_spike_def exact_rolling)

lemma short_report:
  "anomaly_report exact example_short_spike st di = Inr [\<lparr>date = 16, metric_name = ''daily_enrollments'', anomaly_value = 18,
           severity_score = Fin 4, anomaly_type = ''spike'',
           detection_methods = [''z_score'', ''iqr''], district = di, state = st\<rparr>]"
  unfolding anomaly_report_def short_z short_iqr short_rolling
  by (simp add: findings_of_def add_all_def cross_validate_def validated_anomaly_def
        record_method_def new_candidate_def py_min_def round_half_even_def short_mean
        exact_simps)

lemma rounding_mean: "mean (map snd example_rounding) = 40"
  by (simp add: example_rounding_def mean_def)

lemma rounding_pstd: "pstd (map snd example_rounding) = 16"
  unfolding pstd_def rounding_mean
  by (simp add: example_rounding_def sqrt_square_eq [of 16])

lemma rounding_z: "z_score_anomalies exact example_rounding 3 = [Z_score 15 91 (Fin (51 / 16))]"
  unfolding z_score_anomalies_def z_scores_of_def exact_simps exact_zscore_def
    rounding_mean rounding_pstd
  by (simp add: example_rounding_def)

lemma rounding_quantiles:
  "np_quantile exact (map snd example_rounding) (1 / 4) = Fin (151 / 4)"
  "np_quantile exact (map snd example_rounding) (3 / 4) = Fin (81 / 2)"
  by (simp_all add: example_rounding_def quantile_def exact_simps)

lemma rounding_iqr: "iqr_outliers exact example_rounding = [Iqr 0 10 (Fin (269 / 8)) (Fin (357 / 8)), Iqr 1 19 (Fin (269 / 8)) (Fin (357 / 8)),
        Iqr 2 48 (Fin (269 / 8)) (Fin (357 / 8)), Iqr 3 32 (Fin (269 / 8)) (Fin (357 / 8)),
        Iqr 15 91 (Fin (269 / 8)) (Fin (357 / 8))]"
  unfolding iqr_outliers_def rounding_quantiles
  by (simp add: example_rounding_def d_sub_def d_add_def d_mul_def exact_simps Let_def)

lemma rounding_rolling: "rolling_average_deviation exact example_rounding 30 = Inr []"
  by (simp add: example_rounding_def exact_rolling)

lemma rounding_report:
  "anomaly_report exact example_rounding st di = Inr [\<lparr>date = 15, metric_name = ''daily_enrollments'', anomaly_value = 91,
           severity_score = Fin (319 / 100), anomaly_type = ''spike'',
           detection_methods = [''z_score'', ''iqr''], district = di, state = st\<rparr>]"
  unfolding anomaly_report_def rounding_z rounding_iqr rounding_rolling
  by (simp add: findings_of_def add_all_def cross_validate_def validated_anomaly_def
        record_method_def new_candidate_def py_min_def round_half_even_def rounding_mean
        exact_simps)












theorem direction_classification_witness:
  "anomaly_report exact example_drop None None =
       Inr [\<lparr>date = 36, metric_name = ''daily_enrollments'', anomaly_value = 1,
             severity_score = Fin 6, anomaly_type = ''drop'',
             detection_methods = [''z_score'', ''iqr'', ''rolling_deviation''],
             district = None, state = None\<rparr>]
   \<and> rolling_average_deviation exact example_drop 30
       = Inr [Rolling_deviation 36 1 (Fin (1103 / 30)) (Fin (1073 / 1103))]
   \<and> fgt (Fin (1103 / 30)) 1
   \<and> anomaly_report exact example_short_spike None None =
       Inr [\<lparr>date = 16, metric_name = ''daily_enrollments'', anomaly_value = 18,
             severity_score = Fin 4, anomaly_type = ''spike'',
             detection_methods = [''z_score'', ''iqr''],
             district = None, state = None\<rparr>]
   \<and> rolling_average_deviation exact example_short_spike 30 = Inr []
   \<and> np_mean exact (map snd example_short_spike) = Fin 2 \<and> \<not> fgt (Fin 2) 18"
  using direction_classification [OF drop_report [of None None], of
      "\<lparr>date = 36, metric_name = ''daily_enrollments'', anomaly_value = 1,
             severity_score = Fin 6, anomaly_type = ''drop'',
             detection_methods = [''z_score'', ''iqr'', ''rolling_deviation''],
             district = None, state = None\<rparr>"]
    direction_classification [OF short_report [of None None], of
      "\<lparr>date = 16, metric_name = ''daily_enrollments'', anomaly_value = 18,
             severity_score = Fin 4, anomaly_type = ''spike'',
             detection_methods = [''z_score'', ''iqr''],
             district = None, state = None\<rparr>"]
  by (simp add: drop_report drop_rolling short_report short_rolling short_mean exact_simps)

lemma rounding_kept:
  "kept_finding 15 (z_score_anomalies exact example_rounding 3)
     = Some (Z_score 15 91 (Fin (51 / 16)))"
  by (simp add: rounding_z kept_finding_def entries_at_def)

theorem severity_scoring_witness:
  "anomaly_report exact example_rounding None None =
       Inr [\<lparr>date = 15, metric_name = ''daily_enrollments'', anomaly_value = 91,
             severity_score = Fin (319 / 100), anomaly_type = ''spike'',
             detection_methods = [''z_score'', ''iqr''],
             district = None, state = None\<rparr>]
   \<and> kept_finding 15 (z_score_anomalies exact example_rounding 3)
       = Some (Z_score 15 91 (Fin (51 / 16)))
   \<and> (3::real) < 51 / 16
   \<and> rounds_to_2dp (min 10 (51 / 16)) (319 / 100)
   \<and> anomaly_report exact example_late_spike None None =
       Inr [\<lparr>date = 35, metric_name = ''daily_enrollments'', anomaly_value = 19,
             severity_score = Fin 5, anomaly_type = ''spike'',
             detection_methods = [''iqr'', ''rolling_deviation''],
             district = None, state = None\<rparr>]
   \<and> z_score_anomalies exact example_late_spike 3 = []"
proof -
  let ?v = "\<lparr>date = 15::nat, metric_name = ''daily_enrollments'', anomaly_value = 91,
             severity_score = Fin (319 / 100), anomaly_type = ''spike'',
             detection_methods = [''z_score'', ''iqr''],
             district = None, state = None\<rparr>"
  let ?z = "z_score_anomalies exact example_rounding 3"
  have mem: "?v \<in> set [?v]" by simp
  have kept: "kept_finding (date ?v) ?z = Some (Z_score 15 91 (Fin (51 / 16)))"
    by (simp add: rounding_kept)
  note T = severity_scoring [OF rounding_report [of None None] mem,
      THEN conjunct2, THEN conjunct2, THEN conjunct1, rule_format, OF kept]
  from T obtain y r where
    y: "z_score (Z_score (15::nat) 91 (Fin (51 / 16))) = PInf \<and> y = 10
          \<or> (\<exists>a. z_score (Z_score (15::nat) 91 (Fin (51 / 16))) = Fin a
                \<and> 3 < a \<and> y = min 10 a)"
    and r: "severity_score ?v = Fin r" and yr: "rounds_to_2dp y r"
    by (elim exE conjE)
  from y have "y = min 10 (51 / 16)" by auto
  moreover from r have "r = 319 / 100" by simp
  ultimately have "rounds_to_2dp (min 10 (51 / 16)) (319 / 100)"
    using yr by (simp only:)
  moreover have "anomaly_report exact example_late_spike None None =
       Inr [\<lparr>date = 35, metric_name = ''daily_enrollments'', anomaly_value = 19,
             severity_score = Fin 5, anomaly_type = ''spike'',
             detection_methods = [''iqr'', ''rolling_deviation''],
             district = None, state = None\<rparr>]"
    using severity_scoring [OF late_report [of None None], of
      "\<lparr>date = 35, metric_name = ''daily_enrollments'', anomaly_value = 19,
             severity_score = Fin 5, anomaly_type = ''spike'',
             detection_methods = [''iqr'', ''rolling_deviation''],
             district = None, state = None\<rparr>"]
    by (simp add: late_report)
  ultimately show ?thesis
    by (simp add: rounding_report rounding_kept late_z)
qed

theorem severity_bounded_witness:
  "anomaly_report exact example_drop None None =
       Inr [\<lparr>date = 36, metric_name = ''daily_enrollments'', anomaly_value = 1,
             severity_score = Fin 6, anomaly_type = ''drop'',
             detection_methods = [''z_score'', ''iqr'', ''rolling_deviation''],
             district = None, state = None\<rparr>]
   \<and> (\<exists>x. Fin 6 = Fin x \<and> 0 \<le> x \<and> x \<le> 10 \<and> (\<exists>k::int. x = of_int k / 100))"
  using severity_bounded [OF drop_report [of None None], of
      "\<lparr>date = 36, metric_name = ''daily_enrollments'', anomaly_value = 1,
             severity_score = Fin 6, anomaly_type = ''drop'',
             detection_methods = [''z_score'', ''iqr'', ''rolling_deviation''],
             district = None, state = None\<rparr>"]
  by (simp add: drop_report)

subsection \<open>The daily scan\<close>

lemma failed_fetch_report:
  assumes "read_series env st di days = Inl e"
  shows "comprehensive_anomaly_report A env st di days = ([Data_fetch_error e], Inr [])"
  using assms by (simp add: comprehensive_anomaly_report_def get_time_series_data_def)

lemma scan_districts_append:
  "scan_districts A env (rows1 @ rows2) =
     (case scan_districts A env rows1 of
        (out, Inl e) \<Rightarrow> (out, Inl e)
      | (out, Inr alerts) \<Rightarrow>
          (case scan_districts A env rows2 of
             (out', Inl e) \<Rightarrow> (out @ out', Inl e)
           | (out', Inr all_alerts) \<Rightarrow> (out @ out', Inr (alerts @ all_alerts))))"
  by (induction rows1) (auto split: prod.splits sum.splits)

lemma scan_districts_failed_first:
  assumes "read_series env st di 90 = Inl e"
  shows "scan_districts A env ((st, di) # rows) =
     (Data_fetch_error e # fst (scan_districts A env rows), snd (scan_districts A env rows))"
  using failed_fetch_report [OF assms]
  by (auto split: prod.splits sum.splits)

text \<open>
  Claim C9. When the fetch for one partition raises, its report prints the fetch error and
  is empty. In a scan over a list of partitions holding that partition, the alerts
  collected are those of the scan over the list without it, the fetch error is printed
  once the loop reaches the partition, and the task appends to the alert table what it
  would append without the partition. The task itself always returns: every exception
  inside it ends in a printed line. This holds whatever the library computes.
\<close>

theorem failed_fetch_skipped:
  assumes "read_series env st di 90 = Inl e"
  shows "comprehensive_anomaly_report A env st di 90 = ([Data_fetch_error e], Inr [])
     \<and> snd (scan_districts A env (rows1 @ (st, di) # rows2))
         = snd (scan_districts A env (rows1 @ rows2))
     \<and> (\<forall>out alerts. scan_districts A env rows1 = (out, Inr alerts) \<longrightarrow>
           fst (scan_districts A env (rows1 @ (st, di) # rows2))
             = out @ Data_fetch_error e # fst (scan_districts A env rows2))
     \<and> snd (detect_anomalies_daily A (env\<lparr>read_districts := Inr (rows1 @ (st, di) # rows2)\<rparr>))
         = snd (detect_anomalies_daily A (env\<lparr>read_districts := Inr (rows1 @ rows2)\<rparr>))"
proof -
  have rs: "\<And>rows. read_series (env\<lparr>read_districts := rows\<rparr>) = read_series env"
    by simp
  have sc: "\<And>rows rows'. scan_districts A (env\<lparr>read_districts := rows'\<rparr>) rows
              = scan_districts A env rows"
  proof -
    fix rows' and rows :: "(string option \<times> string option) list"
    show "scan_districts A (env\<lparr>read_districts := rows'\<rparr>) rows = scan_districts A env rows"
      by (induction rows)
        (auto simp: comprehensive_anomaly_report_def get_time_series_data_def)
  qed
  have a: "snd (scan_districts A env (rows1 @ (st, di) # rows2))
         = snd (scan_districts A env (rows1 @ rows2))"
    unfolding scan_districts_append scan_districts_failed_first [OF assms]
    by (auto split: prod.splits sum.splits)
  have b: "\<forall>out alerts. scan_districts A env rows1 = (out, Inr alerts) \<longrightarrow>
           fst (scan_districts A env (rows1 @ (st, di) # rows2))
             = out @ Data_fetch_error e # fst (scan_districts A env rows2)"
    unfolding scan_districts_append scan_districts_failed_first [OF assms]
    by (auto split: prod.splits sum.splits)
  have c: "snd (detect_anomalies_daily A (env\<lparr>read_districts := Inr (rows1 @ (st, di) # rows2)\<rparr>))
         = snd (detect_anomalies_daily A (env\<lparr>read_districts := Inr (rows1 @ rows2)\<rparr>))"
    using a
    by (cases "scan_districts A env (rows1 @ (st, di) # rows2)";
        cases "scan_districts A env (rows1 @ rows2)")
      (auto simp: detect_anomalies_daily_def sc split: sum.splits)
  from failed_fetch_report [OF assms] a b c show ?thesis by blast
qed

lemma drop_nonempty: "example_drop \<noteq> []" and short_nonempty: "example_short_spike \<noteq> []"
  by (simp_all add: example_drop_def example_short_spike_def)

theorem failed_fetch_skipped_witness:
  "read_series example_env (Some ''S2'') (Some ''D2'') 90
     = Inl (Other_exception ''connection lost'')
   \<and> comprehensive_anomaly_report exact example_env (Some ''S2'') (Some ''D2'') 90
       = ([Data_fetch_error (Other_exception ''connection lost'')], Inr [])
   \<and> detect_anomalies_daily exact example_env =
       ([Starting, Data_fetch_error (Other_exception ''connection lost''), Inserted 2],
        [\<lparr>date = 36, metric_name = ''daily_enrollments'', anomaly_value = 1,
           severity_score = Fin 6, anomaly_type = ''drop'',
           detection_methods = [''z_score'', ''iqr'', ''rolling_deviation''],
           district = Some ''D1'', state = Some ''S1''\<rparr>,
         \<lparr>date = 16, metric_name = ''daily_enrollments'', anomaly_value = 18,
           severity_score = Fin 4, anomaly_type = ''spike'',
           detection_methods = [''z_score'', ''iqr''],
           district = Some ''D3'', state = Some ''S3''\<rparr>])"
  using failed_fetch_skipped [of example_env "Some ''S2''" "Some ''D2''"
      "Other_exception ''connection lost''" exact "[(Some ''S1'', Some ''D1'')]"
      "[(Some ''S3'', Some ''D3'')]"]
  by (simp add: example_env_def detect_anomalies_daily_def comprehensive_anomaly_report_def
        get_time_series_data_def drop_report short_report drop_nonempty short_nonempty)

end
